theory Spec2Isabelle
  imports Main "HOL-Library.Char_ord" "HOL-Library.List_Lexorder"
begin

section \<open>Errors and terminal output\<close>

text \<open>
  A Go \<^verbatim>\<open>error\<close> is a value. \<open>Err\<close> is an error handed back by a collaborator
  (the local loader, the remote client), \<open>Errorf\<close> the result of \<^verbatim>\<open>fmt.Errorf\<close>
  without \<^verbatim>\<open>%w\<close>, \<open>ErrorfW\<close> the result of \<^verbatim>\<open>fmt.Errorf\<close> with \<^verbatim>\<open>%w\<close>
  (the formatted message and the wrapped cause), and \<open>suppressUsageError\<close> the struct
  of \<^verbatim>\<open>cli.go\<close> that embeds an error.
\<close>

datatype error =
    Err string
  | Errorf string
  | ErrorfW string error
  | suppressUsageError error

fun Error :: "error \<Rightarrow> string" where
  "Error (Err m) = m"
| "Error (Errorf m) = m"
| "Error (ErrorfW m e) = m"
| "Error (suppressUsageError e) = Error e"

text \<open>\<^verbatim>\<open>errors.Unwrap\<close>: the cause of a \<^verbatim>\<open>%w\<close> error, nothing otherwise.\<close>

fun Unwrap :: "error \<Rightarrow> error option" where
  "Unwrap (ErrorfW m e) = Some e"
| "Unwrap e = None"

datatype cell = CellBool bool | CellString string

type_synonym row = "string \<rightharpoonup> cell"

datatype log =
    TextLog string
  | TableLog string "string list" "row list"
  | ErrorLog error

text \<open>\<^verbatim>\<open>strings.Join\<close>.\<close>

fun strings_Join :: "string list \<Rightarrow> string \<Rightarrow> string" where
  "strings_Join [] sep = []"
| "strings_Join [x] sep = x"
| "strings_Join (x # y # ys) sep = x @ sep @ strings_Join (y # ys) sep"

section \<open>Handlers as actions on a world\<close>

text \<open>
  A handler runs in a world \<open>'s\<close> and returns an error or a value. \<open>bind\<close> is
  the Go idiom \<^verbatim>\<open>x, err := m(); if err != nil { return err }\<close> followed by the rest.
\<close>

type_synonym ('s, 'x) action = "'s \<Rightarrow> (error + 'x) \<times> 's"

definition bind :: "('s, 'x) action \<Rightarrow> ('x \<Rightarrow> ('s, 'y) action) \<Rightarrow> ('s, 'y) action" where
  "bind m f w = (case m w of (Inl err, w') \<Rightarrow> (Inl err, w') | (Inr x, w') \<Rightarrow> f x w')"

definition return_err :: "error \<Rightarrow> ('s, 'x) action" where
  "return_err err w = (Inl err, w)"

definition return_ok :: "'x \<Rightarrow> ('s, 'x) action" where
  "return_ok x w = (Inr x, w)"

fun err_of :: "error + 'x \<Rightarrow> error option" where
  "err_of (Inl err) = Some err"
| "err_of (Inr x) = None"

section \<open>The \<^verbatim>\<open>app diff\<close> command (\<^verbatim>\<open>internal/commands/app\<close>)\<close>

subsection \<open>Data\<close>

record 'd App =
  RootDir :: string
  AppData :: 'd

record RealmApp =
  GroupID :: string
  ID :: string

record AppFilter =
  FilterGroupID :: string
  FilterApp :: string

record diffInputs =
  LocalPath :: string
  RemoteApp :: string
  Project :: string
  IncludeDependencies :: bool
  IncludeHosting :: bool

record Profile =
  HostingAssetCachePath :: string

text \<open>
  The handler looks at the values returned by \<^verbatim>\<open>DiffDependencies\<close> and
  \<^verbatim>\<open>hosting.Diffs\<close> only through their \<^verbatim>\<open>Strings()\<close> method, so each is the
  record of what that method returns.
\<close>

record DependenciesDiff =
  DependenciesDiff_Strings :: "string list"

record HostingDiffs =
  HostingDiffs_Strings :: "string list"

subsection \<open>Collaborators and the world\<close>

text \<open>
  The functions the handler calls in \<^verbatim>\<open>internal/local\<close>, \<^verbatim>\<open>internal/cli\<close> and
  \<^verbatim>\<open>internal/cloud/realm\<close> are parameters: \<open>'d\<close> is the app data, \<open>'h\<close> the
  value of \<^verbatim>\<open>local.Hosting\<close>, \<open>'a\<close> the remote hosting assets and \<open>'c\<close> the
  content of the hosting asset cache, which only \<^verbatim>\<open>hosting.Diffs\<close> reads and writes.
\<close>

record ('d, 'h, 'a, 'c) clients =
  LoadApp :: "string \<Rightarrow> error + 'd App"
  ResolveApp :: "AppFilter \<Rightarrow> error + RealmApp"
  Diff :: "string \<Rightarrow> string \<Rightarrow> 'd \<Rightarrow> error + string list"
  PrepareDependencies :: "'d App \<Rightarrow> error + string"
  DiffDependencies :: "string \<Rightarrow> string \<Rightarrow> string \<Rightarrow> error + DependenciesDiff"
  FindAppHosting :: "string \<Rightarrow> error + 'h"
  HostingAssets :: "string \<Rightarrow> string \<Rightarrow> error + 'a"
  hosting_Diffs :: "'h \<Rightarrow> string \<Rightarrow> string \<Rightarrow> 'a \<Rightarrow> 'c \<Rightarrow> (error + HostingDiffs) \<times> 'c"

datatype call =
    CallLoadApp string
  | CallResolveApp AppFilter
  | CallDiff string string
  | CallPrepareDependencies
  | CallDiffDependencies string string string
  | CallFindAppHosting string
  | CallHostingAssets string string
  | CallHostingDiffs string string

text \<open>
  The world the handler acts on: what \<^verbatim>\<open>ui.Print\<close> has printed, the collaborator
  calls made so far, each with the error it returned (\<open>None\<close> for \<^verbatim>\<open>nil\<close>), the
  paths handed to \<^verbatim>\<open>os.Remove\<close> (the handler drops what it returns, so the
  field records the calls, not their success), the paths whose removal the running
  handler has deferred until it returns, the hosting asset cache, and the telemetry
  events tracked.
\<close>

datatype telemetry_event =
    EventTypeCommandStart
  | EventTypeCommandError error
  | EventTypeCommandComplete

record 'c world =
  printed :: "log list"
  calls :: "(call \<times> error option) list"
  removed :: "string list"
  deferred :: "string list"
  assetCache :: "'c"
  tracked :: "telemetry_event list"

text \<open>A call of a collaborator: its result, recorded in the trace.\<close>

definition invoke :: "call \<Rightarrow> error + 'x \<Rightarrow> ('c world, 'x) action" where
  "invoke c r w = (r, w\<lparr>calls := calls w @ [(c, err_of r)]\<rparr>)"

text \<open>\<^verbatim>\<open>hosting.Diffs\<close> is the one call that is handed the asset cache.\<close>

definition invoke_cached :: "call \<Rightarrow> ('c \<Rightarrow> (error + 'x) \<times> 'c) \<Rightarrow> ('c world, 'x) action" where
  "invoke_cached c f w =
     (case f (assetCache w) of
        (r, cache') \<Rightarrow> (r, w\<lparr>calls := calls w @ [(c, err_of r)], assetCache := cache'\<rparr>))"

definition ui_Print :: "log \<Rightarrow> ('c world, unit) action" where
  "ui_Print l w = (Inr (), w\<lparr>printed := printed w @ [l]\<rparr>)"

text \<open>\<^verbatim>\<open>defer os.Remove(path)\<close>, and what runs when the handler returns.\<close>

definition defer_Remove :: "string \<Rightarrow> ('c world, unit) action" where
  "defer_Remove path w = (Inr (), w\<lparr>deferred := path # deferred w\<rparr>)"

definition run_deferred :: "'c world \<Rightarrow> 'c world" where
  "run_deferred w = w\<lparr>removed := removed w @ deferred w, deferred := []\<rparr>"

subsection \<open>\<^verbatim>\<open>CommandDiff.Handler\<close>\<close>

definition no_app_directory :: "string \<Rightarrow> error" where
  "no_app_directory path = Errorf (''no app directory found at '' @ path)"

text \<open>Lines 157 to 169: the dependencies, when asked for.\<close>

definition dependencies_step ::
  "('d, 'h, 'a, 'c) clients \<Rightarrow> diffInputs \<Rightarrow> 'd App \<Rightarrow> RealmApp \<Rightarrow> string list
     \<Rightarrow> ('c world, string list) action" where
  "dependencies_step clients inputs app appToDiff diffs =
     (if IncludeDependencies inputs then
        bind (invoke CallPrepareDependencies (PrepareDependencies clients app)) (\<lambda>uploadPath.
        bind (defer_Remove uploadPath) (\<lambda>_.
        bind (invoke (CallDiffDependencies (GroupID appToDiff) (ID appToDiff) uploadPath)
               (DiffDependencies clients (GroupID appToDiff) (ID appToDiff) uploadPath))
          (\<lambda>dependenciesDiff.
        return_ok (diffs @ DependenciesDiff_Strings dependenciesDiff))))
      else return_ok diffs)"

text \<open>Lines 171 to 188: hosting, when asked for.\<close>

definition hosting_step ::
  "('d, 'h, 'a, 'c) clients \<Rightarrow> Profile \<Rightarrow> diffInputs \<Rightarrow> 'd App \<Rightarrow> RealmApp \<Rightarrow> string list
     \<Rightarrow> ('c world, string list) action" where
  "hosting_step clients profile inputs app appToDiff diffs =
     (if IncludeHosting inputs then
        bind (invoke (CallFindAppHosting (RootDir app)) (FindAppHosting clients (RootDir app)))
          (\<lambda>hosting.
        bind (invoke (CallHostingAssets (GroupID appToDiff) (ID appToDiff))
               (HostingAssets clients (GroupID appToDiff) (ID appToDiff)))
          (\<lambda>appAssets.
        bind (invoke_cached (CallHostingDiffs (HostingAssetCachePath profile) (ID appToDiff))
               (hosting_Diffs clients hosting (HostingAssetCachePath profile) (ID appToDiff)
                  appAssets))
          (\<lambda>hostingDiffs.
        return_ok (diffs @ HostingDiffs_Strings hostingDiffs))))
      else return_ok diffs)"

text \<open>Lines 190 to 201: the report.\<close>

definition identical_log :: log where
  "identical_log = TextLog ''Deployed app is identical to proposed version''"

definition changes_log :: "string list \<Rightarrow> log" where
  "changes_log diffs =
     TextLog (''The following reflects the proposed changes to your Realm app'' @ [CHR 0x0A]
              @ strings_Join diffs [CHR 0x0A])"

definition report :: "string list \<Rightarrow> ('c world, unit) action" where
  "report diffs =
     (if length diffs = 0 then ui_Print identical_log else ui_Print (changes_log diffs))"

definition Handler_body ::
  "('d, 'h, 'a, 'c) clients \<Rightarrow> Profile \<Rightarrow> diffInputs \<Rightarrow> ('c world, unit) action" where
  "Handler_body clients profile inputs =
     bind (invoke (CallLoadApp (LocalPath inputs)) (LoadApp clients (LocalPath inputs))) (\<lambda>app.
     if RootDir app = '''' then return_err (no_app_directory (LocalPath inputs))
     else
       bind (invoke (CallResolveApp \<lparr>FilterGroupID = Project inputs, FilterApp = RemoteApp inputs\<rparr>)
              (ResolveApp clients \<lparr>FilterGroupID = Project inputs, FilterApp = RemoteApp inputs\<rparr>))
         (\<lambda>appToDiff.
       bind (invoke (CallDiff (GroupID appToDiff) (ID appToDiff))
              (Diff clients (GroupID appToDiff) (ID appToDiff) (AppData app)))
         (\<lambda>diffs.
       bind (dependencies_step clients inputs app appToDiff diffs) (\<lambda>diffs.
       bind (hosting_step clients profile inputs app appToDiff diffs) (\<lambda>diffs.
       report diffs)))))"

text \<open>
  The handler: its body, started with nothing deferred, then the deferred calls;
  \<open>None\<close> is \<^verbatim>\<open>nil\<close>.
\<close>

definition Handler ::
  "('d, 'h, 'a, 'c) clients \<Rightarrow> Profile \<Rightarrow> diffInputs \<Rightarrow> 'c world \<Rightarrow> error option \<times> 'c world" where
  "Handler clients profile inputs w =
     (case Handler_body clients profile inputs (w\<lparr>deferred := []\<rparr>) of
        (r, w') \<Rightarrow> (err_of r, run_deferred w'))"

subsection \<open>Observing a run\<close>

text \<open>The calls a run has added to the trace, and the facet each call belongs to.\<close>

definition new_calls :: "'c world \<Rightarrow> 'c world \<Rightarrow> (call \<times> error option) list" where
  "new_calls w w' = drop (length (calls w)) (calls w')"

fun is_dependency_call :: "call \<Rightarrow> bool" where
  "is_dependency_call CallPrepareDependencies = True"
| "is_dependency_call (CallDiffDependencies g a p) = True"
| "is_dependency_call c = False"

fun is_hosting_call :: "call \<Rightarrow> bool" where
  "is_hosting_call (CallFindAppHosting d) = True"
| "is_hosting_call (CallHostingAssets g a) = True"
| "is_hosting_call (CallHostingDiffs p a) = True"
| "is_hosting_call c = False"

section \<open>The command factory (\<^verbatim>\<open>internal/cli\<close>)\<close>

definition TrackEvent :: "telemetry_event \<Rightarrow> 'c world \<Rightarrow> 'c world" where
  "TrackEvent ev w = w\<lparr>tracked := tracked w @ [ev]\<rparr>"

text \<open>\<^verbatim>\<open>fmt.Errorf("%s failed: %w", display, err)\<close>.\<close>

definition failed_error :: "string \<Rightarrow> error \<Rightarrow> error" where
  "failed_error display err = ErrorfW (display @ '' failed: '' @ Error err) err"

text \<open>
  The \<^verbatim>\<open>RunE\<close> closure that \<^verbatim>\<open>commandFactory.Build\<close> gives to Cobra, for a command
  shown as \<open>display\<close> whose handler, applied to its profile, terminal and arguments, is
  \<open>handler\<close>.
\<close>

definition RunE ::
  "string \<Rightarrow> ('c world \<Rightarrow> error option \<times> 'c world) \<Rightarrow> 'c world \<Rightarrow> error option \<times> 'c world" where
  "RunE display handler w =
     (case handler (TrackEvent EventTypeCommandStart w) of
        (Some err, w') \<Rightarrow>
          (Some (suppressUsageError (failed_error display err)),
           TrackEvent (EventTypeCommandError err) w')
      | (None, w') \<Rightarrow> (None, TrackEvent EventTypeCommandComplete w'))"

section \<open>The \<^verbatim>\<open>secrets delete\<close> command (\<^verbatim>\<open>internal/commands/secrets\<close>)\<close>

record Secret =
  SecretID :: string
  SecretName :: string

record secretOutput =
  output_secret :: Secret
  output_err :: "error option"

record deleteInputs =
  inputs_Filter :: AppFilter
  inputs_secrets :: "string list"

text \<open>
  What the handler uses and \<^verbatim>\<open>delete.go\<close> does not define: the remote client, whose
  state \<open>'r\<close> a deletion changes, the resolution of the selected secrets, and the table
  helpers and header names of the package.
\<close>

record 'r secrets_env =
  secrets_ResolveApp :: "AppFilter \<Rightarrow> error + RealmApp"
  Secrets :: "string \<Rightarrow> string \<Rightarrow> error + Secret list"
  resolveSecrets :: "deleteInputs \<Rightarrow> Secret list \<Rightarrow> error + Secret list"
  DeleteSecret :: "string \<Rightarrow> string \<Rightarrow> string \<Rightarrow> 'r \<Rightarrow> error option \<times> 'r"
  headerDeleted :: string
  headerDetails :: string
  tableHeaders :: "string list \<Rightarrow> string list"
  tableRows :: "secretOutput list \<Rightarrow> (secretOutput \<Rightarrow> row \<Rightarrow> row) \<Rightarrow> row list"

datatype secrets_call =
    CallSecretsResolveApp AppFilter
  | CallSecrets string string
  | CallResolveSecrets
  | CallDeleteSecret string string string

record 'r secrets_world =
  secrets_printed :: "log list"
  secrets_calls :: "(secrets_call \<times> error option) list"
  realm :: 'r

definition secrets_invoke :: "secrets_call \<Rightarrow> error + 'x \<Rightarrow> ('r secrets_world, 'x) action" where
  "secrets_invoke c r w = (r, w\<lparr>secrets_calls := secrets_calls w @ [(c, err_of r)]\<rparr>)"

definition secrets_Print :: "log \<Rightarrow> ('r secrets_world, unit) action" where
  "secrets_Print l w = (Inr (), w\<lparr>secrets_printed := secrets_printed w @ [l]\<rparr>)"

text \<open>\<^verbatim>\<open>%d\<close> of a length.\<close>

definition digit_char :: "nat \<Rightarrow> char" where
  "digit_char n = ''0123456789'' ! n"

fun Itoa :: "nat \<Rightarrow> string" where
  "Itoa n = (if n < 10 then [digit_char n] else Itoa (n div 10) @ [digit_char (n mod 10)])"

declare Itoa.simps [simp del]

text \<open>
  \<^verbatim>\<open>sort.SliceStable\<close> of the Go library sorts stably. It is modelled by the
  insertion sort the library runs on each block of the slice: each element in turn is
  swapped to the left for as long as it is less than its left neighbour (\<open>sink\<close>
  holds the sorted part from right to left). The library merges longer slices from such
  blocks; for a less function that is a strict weak order, as the one of this command,
  the stably sorted result is the same.
\<close>

fun sink :: "('a \<Rightarrow> 'a \<Rightarrow> bool) \<Rightarrow> 'a \<Rightarrow> 'a list \<Rightarrow> 'a list" where
  "sink lessFn x [] = [x]"
| "sink lessFn x (y # ys) = (if lessFn x y then y # sink lessFn x ys else x # y # ys)"

definition SliceStable :: "('a \<Rightarrow> 'a \<Rightarrow> bool) \<Rightarrow> 'a list \<Rightarrow> 'a list" where
  "SliceStable lessFn xs = rev (foldl (\<lambda>block x. sink lessFn x block) [] xs)"

text \<open>Lines 63 to 66: one deletion for each selected secret, whatever it returns.\<close>

fun delete_each ::
  "'r secrets_env \<Rightarrow> RealmApp \<Rightarrow> Secret list \<Rightarrow> 'r secrets_world
     \<Rightarrow> secretOutput list \<times> 'r secrets_world" where
  "delete_each env app [] w = ([], w)"
| "delete_each env app (secret # rest) w =
     (case DeleteSecret env (GroupID app) (ID app) (SecretID secret) (realm w) of
        (err, realm') \<Rightarrow>
          (case delete_each env app rest
                  (w\<lparr>secrets_calls := secrets_calls w @
                        [(CallDeleteSecret (GroupID app) (ID app) (SecretID secret), err)],
                     realm := realm'\<rparr>) of
             (outputs, w') \<Rightarrow> (\<lparr>output_secret = secret, output_err = err\<rparr> # outputs, w')))"

text \<open>\<^verbatim>\<open>tableRowDelete\<close>, given the two header names of the package.\<close>

definition tableRowDelete :: "string \<Rightarrow> string \<Rightarrow> secretOutput \<Rightarrow> row \<Rightarrow> row" where
  "tableRowDelete deletedHeader detailsHeader output row =
     (case (case output_err output of
              Some err \<Rightarrow> (False, row(detailsHeader \<mapsto> CellString (Error err)))
            | None \<Rightarrow> (True, row)) of
        (deleted, row') \<Rightarrow> row'(deletedHeader \<mapsto> CellBool deleted))"

text \<open>The less function handed to \<^verbatim>\<open>sort.SliceStable\<close> (lines 68 to 70).\<close>

definition failed_first :: "secretOutput \<Rightarrow> secretOutput \<Rightarrow> bool" where
  "failed_first a b = (output_err a \<noteq> None \<and> output_err b = None)"

text \<open>\<^verbatim>\<open>CommandDelete.Handler\<close>; \<open>None\<close> is \<^verbatim>\<open>nil\<close>.\<close>

definition delete_Handler_body ::
  "'r secrets_env \<Rightarrow> deleteInputs \<Rightarrow> ('r secrets_world, unit) action" where
  "delete_Handler_body env inputs =
     bind (secrets_invoke (CallSecretsResolveApp (inputs_Filter inputs))
            (secrets_ResolveApp env (inputs_Filter inputs))) (\<lambda>app.
     bind (secrets_invoke (CallSecrets (GroupID app) (ID app))
            (Secrets env (GroupID app) (ID app))) (\<lambda>secrets.
     bind (secrets_invoke CallResolveSecrets (resolveSecrets env inputs secrets)) (\<lambda>selected.
     if length selected = 0 then secrets_Print (TextLog ''No secrets to delete'')
     else (\<lambda>w.
       case delete_each env app selected w of
         (outputs, w') \<Rightarrow>
           secrets_Print
             (TableLog (''Deleted '' @ Itoa (length (SliceStable failed_first outputs))
                          @ '' secret(s)'')
                (tableHeaders env [headerDeleted env, headerDetails env])
                (tableRows env (SliceStable failed_first outputs)
                   (tableRowDelete (headerDeleted env) (headerDetails env))))
             w'))))"

definition delete_Handler ::
  "'r secrets_env \<Rightarrow> deleteInputs \<Rightarrow> 'r secrets_world \<Rightarrow> error option \<times> 'r secrets_world" where
  "delete_Handler env inputs w =
     (case delete_Handler_body env inputs w of (r, w') \<Rightarrow> (err_of r, w'))"

section \<open>The diff engine of the specification\<close>

text \<open>
  The handler above only concatenates what its collaborators return. The comparison
  itself is done by code that is not among the source files: the service behind
  \<^verbatim>\<open>Diff\<close> and \<^verbatim>\<open>DiffDependencies\<close>, and \<^verbatim>\<open>hosting.Diffs\<close> of
  \<^verbatim>\<open>internal/local\<close> with its asset cache. The definitions of this section follow the
  specification's sections 3, 4, 6 and 7 instead.
\<close>

subsection \<open>Data model\<close>

type_synonym hash = string

text \<open>Modelled from the spec: FileNode of section 3, for the missing local loader.\<close>

record FileNode =
  relativePath :: string
  content :: string
  isDirectory :: bool

text \<open>
  Modelled from the spec: ConfigTree of section 3, a mapping from path to node; here the
  list of its nodes, read through \<open>tree_lookup\<close> below.
\<close>

type_synonym ConfigTree = "FileNode list"

text \<open>Modelled from the spec: DependencySnapshot of section 3.\<close>

record DependencySnapshot =
  present :: bool
  digest :: "hash option"

text \<open>Modelled from the spec: HostingAsset of section 3, an entry of the remote manifest.\<close>

record HostingAsset =
  asset_path :: string
  asset_digest :: hash
  asset_size :: nat
  asset_attributes :: "string \<rightharpoonup> string"

text \<open>Modelled from the spec: DiffEntry of section 3, carrying path, facet and detail.\<close>

datatype Facet = Config | Dependency | Hosting

datatype DiffEntry =
    Added string Facet string
  | Removed string Facet string
  | Changed string Facet string

subsection \<open>Configuration diff (section 4.1)\<close>

text \<open>
  Modelled from the spec: the path comparison of section 4.1, which is case-sensitive and
  normalises the separator (a backslash becomes a slash).
\<close>

definition normalize_path :: "string \<Rightarrow> string" where
  "normalize_path p = map (\<lambda>c. if c = CHR 0x5C then CHR ''/'' else c) p"

text \<open>
  Modelled from the spec: directory nodes are not diffed (section 4.1); a tree is looked
  up by normalised path.
\<close>

definition tree_files :: "ConfigTree \<Rightarrow> FileNode list" where
  "tree_files tree = filter (\<lambda>node. \<not> isDirectory node) tree"

definition tree_paths :: "ConfigTree \<Rightarrow> string list" where
  "tree_paths tree = map (\<lambda>node. normalize_path (relativePath node)) (tree_files tree)"

definition tree_lookup :: "ConfigTree \<Rightarrow> string \<Rightarrow> FileNode option" where
  "tree_lookup tree p = find (\<lambda>node. normalize_path (relativePath node) = p) (tree_files tree)"

text \<open>
  Modelled from the spec: the configuration diff of section 4.1, in place of the missing
  service behind \<^verbatim>\<open>Diff\<close>. A path only in the local tree is \<open>Added\<close>, only in the
  remote tree \<open>Removed\<close>, in both with different content \<open>Changed\<close>; the entries are
  ordered by path (section 3).
\<close>

definition config_entry :: "ConfigTree \<Rightarrow> ConfigTree \<Rightarrow> string \<Rightarrow> DiffEntry list" where
  "config_entry localTree remoteTree p =
     (case (tree_lookup localTree p, tree_lookup remoteTree p) of
        (Some l, None) \<Rightarrow> [Added p Config '''']
      | (None, Some r) \<Rightarrow> [Removed p Config '''']
      | (Some l, Some r) \<Rightarrow> (if content l \<noteq> content r then [Changed p Config ''''] else [])
      | (None, None) \<Rightarrow> [])"

definition config_diff :: "ConfigTree \<Rightarrow> ConfigTree \<Rightarrow> DiffEntry list" where
  "config_diff localTree remoteTree =
     concat (map (config_entry localTree remoteTree)
               (sort (remdups (tree_paths localTree @ tree_paths remoteTree))))"

subsection \<open>Dependency diff (section 4.2)\<close>

text \<open>
  Modelled from the spec: the dependency diff of section 4.2, in place of the missing
  \<^verbatim>\<open>DiffDependencies\<close> and its \<^verbatim>\<open>Strings()\<close>. The entry's path is the
  \<^verbatim>\<open>dependency-archive\<close> of the scenario in section 8.
\<close>

definition dependency_diff :: "DependencySnapshot \<Rightarrow> DependencySnapshot \<Rightarrow> DiffEntry list" where
  "dependency_diff localDep remoteDep =
     (if present localDep \<and> \<not> present remoteDep then [Added ''dependency-archive'' Dependency '''']
      else if \<not> present localDep \<and> present remoteDep
        then [Removed ''dependency-archive'' Dependency '''']
      else if present localDep \<and> present remoteDep \<and> digest localDep \<noteq> digest remoteDep
        then [Changed ''dependency-archive'' Dependency '''']
      else [])"

subsection \<open>Hosting diff (section 4.3)\<close>

text \<open>
  Modelled from the spec: the comparison of section 4.3 between the local assets and the
  remote manifest, in place of the missing \<^verbatim>\<open>hosting.Diffs\<close>: \<open>Added\<close>,
  \<open>Removed\<close>, \<open>Changed\<close> with detail \<^verbatim>\<open>content\<close> for differing digests and
  with detail \<^verbatim>\<open>attributes\<close> for equal digests and differing attributes.
\<close>

definition find_asset :: "HostingAsset list \<Rightarrow> string \<Rightarrow> HostingAsset option" where
  "find_asset assets p = find (\<lambda>asset. asset_path asset = p) assets"

definition hosting_entry :: "HostingAsset list \<Rightarrow> HostingAsset list \<Rightarrow> string \<Rightarrow> DiffEntry list" where
  "hosting_entry localAssets manifest p =
     (case (find_asset localAssets p, find_asset manifest p) of
        (Some l, None) \<Rightarrow> [Added p Hosting '''']
      | (None, Some r) \<Rightarrow> [Removed p Hosting '''']
      | (Some l, Some r) \<Rightarrow>
          (if asset_digest l \<noteq> asset_digest r then [Changed p Hosting ''content'']
           else if asset_attributes l \<noteq> asset_attributes r then [Changed p Hosting ''attributes'']
           else [])
      | (None, None) \<Rightarrow> [])"

definition hosting_entries :: "HostingAsset list \<Rightarrow> HostingAsset list \<Rightarrow> DiffEntry list" where
  "hosting_entries localAssets manifest =
     concat (map (hosting_entry localAssets manifest)
               (sort (remdups (map asset_path localAssets @ map asset_path manifest))))"

subsection \<open>The engine surface (sections 4.4 and 6)\<close>

text \<open>
  Modelled from the spec: \<^verbatim>\<open>diff(local, remote, options)\<close> of section 6 on loaded
  snapshots, the facets concatenated in the order of section 4.4. A snapshot holds one
  side of each facet; its hosting part is the list of assets with their digests.
\<close>

record Snapshot =
  snapshot_config :: ConfigTree
  snapshot_dependency :: DependencySnapshot
  snapshot_hosting :: "HostingAsset list"

record diffOptions =
  includeDependencies :: bool
  includeHosting :: bool

definition diff :: "Snapshot \<Rightarrow> Snapshot \<Rightarrow> diffOptions \<Rightarrow> DiffEntry list" where
  "diff localSnapshot remoteSnapshot opts =
     config_diff (snapshot_config localSnapshot) (snapshot_config remoteSnapshot)
     @ (if includeDependencies opts
        then dependency_diff (snapshot_dependency localSnapshot) (snapshot_dependency remoteSnapshot)
        else [])
     @ (if includeHosting opts
        then hosting_entries (snapshot_hosting localSnapshot) (snapshot_hosting remoteSnapshot)
        else [])"

subsection \<open>The asset cache (sections 3, 4.3, 6 and 7)\<close>

text \<open>Modelled from the spec: the error taxonomy of section 7.\<close>

datatype EngineError = IOError | ServiceError | BuildError | CacheError

text \<open>
  Modelled from the spec: AssetCacheEntry of section 3, kept under the key (appID, path);
  \<open>lastSeen\<close> is the modification signature handed to \<^verbatim>\<open>put\<close>.
\<close>

record AssetCacheEntry =
  entry_appID :: string
  entry_path :: string
  entry_digest :: hash
  lastSeen :: nat

text \<open>
  Modelled from the spec: the cache store of section 6 with \<^verbatim>\<open>get\<close> and \<^verbatim>\<open>put\<close>.
  Section 7 names a store that is unreadable or unwritable: a store holds its entries and
  may refuse to be read, to be written, or both; the refused operation answers
  \<open>CacheError\<close>. \<open>Unusable\<close> is the store that can be neither read nor written.
\<close>

datatype AssetCache =
    Usable "string \<times> string \<rightharpoonup> AssetCacheEntry"
  | Unwritable "string \<times> string \<rightharpoonup> AssetCacheEntry"
  | Unreadable "string \<times> string \<rightharpoonup> AssetCacheEntry"
  | Unusable

fun readable :: "AssetCache \<Rightarrow> bool" where
  "readable (Usable entries) = True"
| "readable (Unwritable entries) = True"
| "readable (Unreadable entries) = False"
| "readable Unusable = False"

fun writable :: "AssetCache \<Rightarrow> bool" where
  "writable (Usable entries) = True"
| "writable (Unwritable entries) = False"
| "writable (Unreadable entries) = True"
| "writable Unusable = False"

definition cache_get :: "AssetCache \<Rightarrow> string \<Rightarrow> string \<Rightarrow> EngineError + AssetCacheEntry option" where
  "cache_get store appID p =
     (case store of
        Usable entries \<Rightarrow> Inr (entries (appID, p))
      | Unwritable entries \<Rightarrow> Inr (entries (appID, p))
      | Unreadable entries \<Rightarrow> Inl CacheError
      | Unusable \<Rightarrow> Inl CacheError)"

definition cache_put ::
  "AssetCache \<Rightarrow> string \<Rightarrow> string \<Rightarrow> hash \<Rightarrow> nat \<Rightarrow> EngineError option \<times> AssetCache" where
  "cache_put store appID p d sig =
     (case store of
        Usable entries \<Rightarrow>
          (None, Usable (entries((appID, p) \<mapsto>
             \<lparr>entry_appID = appID, entry_path = p, entry_digest = d, lastSeen = sig\<rparr>)))
      | Unwritable entries \<Rightarrow> (Some CacheError, Unwritable entries)
      | Unreadable entries \<Rightarrow>
          (None, Unreadable (entries((appID, p) \<mapsto>
             \<lparr>entry_appID = appID, entry_path = p, entry_digest = d, lastSeen = sig\<rparr>)))
      | Unusable \<Rightarrow> (Some CacheError, Unusable))"

text \<open>
  Modelled from the spec: a local hosting file, the FileNode that
  \<^verbatim>\<open>loadHostingFiles\<close> returns together with its modification signature (glossary) and
  its attributes.
\<close>

record HostingFile = FileNode +
  signature :: nat
  attributes :: "string \<rightharpoonup> string"

text \<open>
  The state of a hosting diff: the cache store, and the paths of the files the hash
  function was run on (the counting instrumentation of section 8).
\<close>

record hosting_state =
  cache :: AssetCache
  hashed :: "string list"

definition asset_of :: "HostingFile \<Rightarrow> hash \<Rightarrow> HostingAsset" where
  "asset_of file d =
     \<lparr>asset_path = relativePath file, asset_digest = d, asset_size = length (content file),
      asset_attributes = attributes file\<rparr>"

text \<open>
  Modelled from the spec: the file is hashed and the cache entry inserted or replaced
  (section 4.3); a failure of the store is ignored (section 7).
\<close>

definition rehash ::
  "(string \<Rightarrow> hash) \<Rightarrow> string \<Rightarrow> HostingFile \<Rightarrow> hosting_state \<Rightarrow> HostingAsset \<times> hosting_state" where
  "rehash hashFn appID file st =
     (case cache_put (cache st) appID (relativePath file) (hashFn (content file)) (signature file) of
        (ignored, store') \<Rightarrow>
          (asset_of file (hashFn (content file)),
           st\<lparr>cache := store', hashed := hashed st @ [relativePath file]\<rparr>))"

text \<open>
  Modelled from the spec: the digest of one local file (section 4.3). The cache is
  consulted first; an entry whose recorded signature is the file's is reused without
  hashing; otherwise, and when the store fails, the file is hashed.
\<close>

definition local_asset ::
  "(string \<Rightarrow> hash) \<Rightarrow> string \<Rightarrow> HostingFile \<Rightarrow> hosting_state \<Rightarrow> HostingAsset \<times> hosting_state" where
  "local_asset hashFn appID file st =
     (case cache_get (cache st) appID (relativePath file) of
        Inr (Some entry) \<Rightarrow>
          (if lastSeen entry = signature file then (asset_of file (entry_digest entry), st)
           else rehash hashFn appID file st)
      | Inr None \<Rightarrow> rehash hashFn appID file st
      | Inl cacheError \<Rightarrow> rehash hashFn appID file st)"

fun local_assets ::
  "(string \<Rightarrow> hash) \<Rightarrow> string \<Rightarrow> HostingFile list \<Rightarrow> hosting_state
     \<Rightarrow> HostingAsset list \<times> hosting_state" where
  "local_assets hashFn appID [] st = ([], st)"
| "local_assets hashFn appID (file # files) st =
     (case local_asset hashFn appID file st of
        (asset, st') \<Rightarrow>
          (case local_assets hashFn appID files st' of
             (assets, st'') \<Rightarrow> (asset # assets, st'')))"

definition hosting_files :: "HostingFile list \<Rightarrow> HostingFile list" where
  "hosting_files nodes = filter (\<lambda>node. \<not> isDirectory node) nodes"

text \<open>
  Modelled from the spec: the hosting diff algorithm of section 4.3 on loaded inputs, and
  the hosting facet of section 2, which loads the local files and fetches the manifest
  first and fails with their errors (section 7).
\<close>

definition hosting_diff ::
  "(string \<Rightarrow> hash) \<Rightarrow> string \<Rightarrow> HostingFile list \<Rightarrow> HostingAsset list \<Rightarrow> hosting_state
     \<Rightarrow> DiffEntry list \<times> hosting_state" where
  "hosting_diff hashFn appID nodes manifest st =
     (case local_assets hashFn appID (hosting_files nodes) st of
        (assets, st') \<Rightarrow> (hosting_entries assets manifest, st'))"

definition hosting_facet ::
  "(string \<Rightarrow> EngineError + HostingFile list) \<Rightarrow> (string \<Rightarrow> string \<Rightarrow> EngineError + HostingAsset list)
     \<Rightarrow> (string \<Rightarrow> hash) \<Rightarrow> string \<Rightarrow> string \<Rightarrow> string \<Rightarrow> hosting_state
     \<Rightarrow> (EngineError + DiffEntry list) \<times> hosting_state" where
  "hosting_facet loadHostingFiles fetchHostingManifest hashFn hostingRoot groupID appID st =
     (case loadHostingFiles hostingRoot of
        Inl ioError \<Rightarrow> (Inl ioError, st)
      | Inr nodes \<Rightarrow>
          (case fetchHostingManifest groupID appID of
             Inl serviceError \<Rightarrow> (Inl serviceError, st)
           | Inr manifest \<Rightarrow>
               (case hosting_diff hashFn appID nodes manifest st of
                  (entries, st') \<Rightarrow> (Inr entries, st'))))"

text \<open>
  What a usable cache makes of a file: whether its entry is valid for the file (the
  invariant of AssetCacheEntry in section 3), the digest the algorithm then uses, and the
  entry a hashed file leaves behind.
\<close>

definition entry_valid :: "(string \<times> string \<rightharpoonup> AssetCacheEntry) \<Rightarrow> string \<Rightarrow> HostingFile \<Rightarrow> bool" where
  "entry_valid entries appID file =
     (case entries (appID, relativePath file) of
        Some entry \<Rightarrow> lastSeen entry = signature file
      | None \<Rightarrow> False)"

definition local_digest ::
  "(string \<Rightarrow> hash) \<Rightarrow> (string \<times> string \<rightharpoonup> AssetCacheEntry) \<Rightarrow> string \<Rightarrow> HostingFile \<Rightarrow> hash" where
  "local_digest hashFn entries appID file =
     (case entries (appID, relativePath file) of
        Some entry \<Rightarrow>
          if lastSeen entry = signature file then entry_digest entry else hashFn (content file)
      | None \<Rightarrow> hashFn (content file))"

definition new_entry :: "(string \<Rightarrow> hash) \<Rightarrow> string \<Rightarrow> HostingFile \<Rightarrow> AssetCacheEntry" where
  "new_entry hashFn appID file =
     \<lparr>entry_appID = appID, entry_path = relativePath file,
      entry_digest = hashFn (content file), lastSeen = signature file\<rparr>"

section \<open>Example runs\<close>

definition example_clients :: "(unit, unit, unit, nat) clients" where
  "example_clients =
     \<lparr>LoadApp = (\<lambda>path. Inr \<lparr>RootDir = ''/work/app'', AppData = ()\<rparr>),
      ResolveApp = (\<lambda>f. Inr \<lparr>GroupID = ''group'', ID = ''app-abcde''\<rparr>),
      Diff = (\<lambda>g a d. Inr [''modified function f'', ''added trigger t'']),
      PrepareDependencies = (\<lambda>app. Inr ''/tmp/node_modules.zip''),
      DiffDependencies = (\<lambda>g a p. Inr \<lparr>DependenciesDiff_Strings = [''+ lodash@4.17.21'']\<rparr>),
      FindAppHosting = (\<lambda>root. Inr ()),
      HostingAssets = (\<lambda>g a. Inr ()),
      hosting_Diffs = (\<lambda>h p a assets c.
         (Inr \<lparr>HostingDiffs_Strings = [''modified /index.html'', ''added /logo.png'']\<rparr>, Suc c))\<rparr>"

definition example_inputs :: diffInputs where
  "example_inputs =
     \<lparr>LocalPath = ''/work/app'', RemoteApp = ''app-abcde'', Project = ''group'',
      IncludeDependencies = True, IncludeHosting = True\<rparr>"

definition example_profile :: Profile where
  "example_profile = \<lparr>HostingAssetCachePath = ''/home/u/.cache/hosting.json''\<rparr>"

definition example_world :: "nat world" where
  "example_world =
     \<lparr>printed = [], calls = [], removed = [], deferred = [], assetCache = 0, tracked = []\<rparr>"

definition identical_clients :: "(unit, unit, unit, nat) clients" where
  "identical_clients =
     example_clients
       \<lparr>Diff := (\<lambda>g a d. Inr []),
        DiffDependencies := (\<lambda>g a p. Inr \<lparr>DependenciesDiff_Strings = []\<rparr>),
        hosting_Diffs := (\<lambda>h p a assets c. (Inr \<lparr>HostingDiffs_Strings = []\<rparr>, Suc c))\<rparr>"

definition config_only_inputs :: diffInputs where
  "config_only_inputs = example_inputs\<lparr>IncludeDependencies := False, IncludeHosting := False\<rparr>"

definition failing_clients :: "(unit, unit, unit, nat) clients" where
  "failing_clients =
     example_clients
       \<lparr>PrepareDependencies := (\<lambda>app. Inl (Err ''npm archive failed'')),
        DiffDependencies := (\<lambda>g a p. Inl (Err ''503'')),
        FindAppHosting := (\<lambda>root. Inl (Err ''permission denied'')),
        HostingAssets := (\<lambda>g a. Inl (Err ''503'')),
        hosting_Diffs := (\<lambda>h p a assets c. (Inl (Err ''cache''), c + 7))\<rparr>"

definition no_app_clients :: "(unit, unit, unit, nat) clients" where
  "no_app_clients = example_clients\<lparr>LoadApp := (\<lambda>path. Inr \<lparr>RootDir = '''', AppData = ()\<rparr>)\<rparr>"

definition example_secrets :: "Secret list" where
  "example_secrets =
     [\<lparr>SecretID = ''id1'', SecretName = ''apiKey''\<rparr>,
      \<lparr>SecretID = ''id2'', SecretName = ''dbPassword''\<rparr>,
      \<lparr>SecretID = ''id3'', SecretName = ''token''\<rparr>,
      \<lparr>SecretID = ''id4'', SecretName = ''unused''\<rparr>]"

definition example_secrets_env :: "string list secrets_env" where
  "example_secrets_env =
     \<lparr>secrets_ResolveApp = (\<lambda>f. Inr \<lparr>GroupID = ''group'', ID = ''app-abcde''\<rparr>),
      Secrets = (\<lambda>g a. Inr example_secrets),
      resolveSecrets = (\<lambda>inputs secrets.
         Inr (filter (\<lambda>s. SecretID s \<in> set (inputs_secrets inputs)
                        \<or> SecretName s \<in> set (inputs_secrets inputs)) secrets)),
      DeleteSecret = (\<lambda>g a secretID existing.
         if secretID \<in> set existing then (None, removeAll secretID existing)
         else (Some (Err ''secret not found''), existing)),
      headerDeleted = ''Deleted'',
      headerDetails = ''Details'',
      tableHeaders = (\<lambda>headers. [''ID'', ''Name''] @ headers),
      tableRows = (\<lambda>outputs f.
         map (\<lambda>output. f output
                [''ID'' \<mapsto> CellString (SecretID (output_secret output)),
                 ''Name'' \<mapsto> CellString (SecretName (output_secret output))]) outputs)\<rparr>"

definition example_delete_inputs :: deleteInputs where
  "example_delete_inputs =
     \<lparr>inputs_Filter = \<lparr>FilterGroupID = ''group'', FilterApp = ''app-abcde''\<rparr>,
      inputs_secrets = [''id1'', ''dbPassword'', ''id3'']\<rparr>"

definition example_secrets_world :: "string list secrets_world" where
  "example_secrets_world = \<lparr>secrets_printed = [], secrets_calls = [], realm = [''id2'', ''id4'']\<rparr>"

definition example_hash :: "string \<Rightarrow> hash" where
  "example_hash bytes = ''sha:'' @ bytes"

definition index_v1 :: HostingFile where
  "index_v1 =
     \<lparr>relativePath = ''/index.html'', content = ''<h1>v1</h1>'', isDirectory = False,
      signature = 1, attributes = Map.empty\<rparr>"

definition remote_index_v1 :: HostingAsset where
  "remote_index_v1 =
     \<lparr>asset_path = ''/index.html'', asset_digest = ''sha:<h1>v1</h1>'', asset_size = 11,
      asset_attributes = Map.empty\<rparr>"

definition remote_index_v2 :: HostingAsset where
  "remote_index_v2 = remote_index_v1\<lparr>asset_digest := ''sha:<h1>v2</h1>''\<rparr>"

definition index_v2 :: HostingFile where
  "index_v2 = index_v1\<lparr>content := ''<h1>v2</h1>'', signature := 2\<rparr>"

definition index_v2_same_signature :: HostingFile where
  "index_v2_same_signature = index_v1\<lparr>content := ''<h1>v2</h1>''\<rparr>"

definition logo :: HostingFile where
  "logo =
     \<lparr>relativePath = ''/img/logo.png'', content = ''PNG'', isDirectory = False,
      signature = 7, attributes = Map.empty\<rparr>"

definition remote_logo :: HostingAsset where
  "remote_logo =
     \<lparr>asset_path = ''/img/logo.png'', asset_digest = ''sha:PNG'', asset_size = 3,
      asset_attributes = Map.empty\<rparr>"

definition empty_cache_state :: hosting_state where
  "empty_cache_state = \<lparr>cache = Usable Map.empty, hashed = []\<rparr>"

definition after_first_run :: hosting_state where
  "after_first_run =
     snd (hosting_diff example_hash ''app-abcde'' [index_v1, logo] [remote_index_v1, remote_logo]
            empty_cache_state)"

definition stale_entries :: "string \<times> string \<rightharpoonup> AssetCacheEntry" where
  "stale_entries =
     [(''app-abcde'', ''/index.html'') \<mapsto>
        \<lparr>entry_appID = ''app-abcde'', entry_path = ''/index.html'',
         entry_digest = ''sha:<h1>v1</h1>'', lastSeen = 1\<rparr>]"

definition example_load :: "string \<Rightarrow> EngineError + HostingFile list" where
  "example_load hostingRoot =
     (if hostingRoot = ''/work/app/hosting/files'' then Inr [index_v2_same_signature, logo]
      else Inl IOError)"

definition example_fetch :: "string \<Rightarrow> string \<Rightarrow> EngineError + HostingAsset list" where
  "example_fetch groupID appID =
     (if appID = ''app-abcde'' then Inr [remote_index_v2, remote_logo] else Inl ServiceError)"

definition fresh_entries :: "string \<times> string \<rightharpoonup> AssetCacheEntry" where
  "fresh_entries =
     [(''app-abcde'', ''/index.html'') \<mapsto>
        \<lparr>entry_appID = ''app-abcde'', entry_path = ''/index.html'',
         entry_digest = ''sha:<h1>v2</h1>'', lastSeen = 1\<rparr>]"


section \<open>Properties of the \<^verbatim>\<open>app diff\<close> handler\<close>

lemmas action_defs = bind_def return_err_def return_ok_def invoke_def invoke_cached_def
  ui_Print_def defer_Remove_def run_deferred_def

lemmas Handler_defs = Handler_def Handler_body_def dependencies_step_def hosting_step_def
  report_def

lemmas example_defs = example_clients_def example_inputs_def example_profile_def
  example_world_def

lemma Handler_success:
  assumes load: "LoadApp clients (LocalPath inputs) = Inr app"
    and root: "RootDir app \<noteq> ''''"
    and resolve: "ResolveApp clients \<lparr>FilterGroupID = Project inputs, FilterApp = RemoteApp inputs\<rparr>
                    = Inr appToDiff"
    and config: "Diff clients (GroupID appToDiff) (ID appToDiff) (AppData app) = Inr configDiffs"
    and deps: "if IncludeDependencies inputs
               then \<exists>uploadPath dependenciesDiff.
                      PrepareDependencies clients app = Inr uploadPath \<and>
                      DiffDependencies clients (GroupID appToDiff) (ID appToDiff) uploadPath
                        = Inr dependenciesDiff \<and>
                      DependenciesDiff_Strings dependenciesDiff = dependencyDiffs
               else dependencyDiffs = []"
    and hosting: "if IncludeHosting inputs
               then \<exists>hosting appAssets hostingDiffs' cache'.
                      FindAppHosting clients (RootDir app) = Inr hosting \<and>
                      HostingAssets clients (GroupID appToDiff) (ID appToDiff) = Inr appAssets \<and>
                      hosting_Diffs clients hosting (HostingAssetCachePath profile) (ID appToDiff)
                        appAssets (assetCache w) = (Inr hostingDiffs', cache') \<and>
                      HostingDiffs_Strings hostingDiffs' = hostingDiffs
               else hostingDiffs = []"
  shows "fst (Handler clients profile inputs w) = None \<and>
         printed (snd (Handler clients profile inputs w)) =
           printed w @ [if configDiffs @ dependencyDiffs @ hostingDiffs = [] then identical_log
                        else changes_log (configDiffs @ dependencyDiffs @ hostingDiffs)]"
  using assms
  by (auto simp: Handler_defs action_defs split: if_splits)

text \<open>
  Claim C1. When every step of a diff invocation succeeds, what the handler prints is
  built from the configuration diffs, then the dependency diffs (when requested), then the
  hosting diffs (when requested), each in the order its collaborator returned it: the
  sequence joined into the report is \<open>configDiffs @ dependencyDiffs @ hostingDiffs\<close>.
\<close>
theorem Handler_concatenates_facets:
  assumes load: "LoadApp clients (LocalPath inputs) = Inr app"
    and root: "RootDir app \<noteq> ''''"
    and resolve: "ResolveApp clients \<lparr>FilterGroupID = Project inputs, FilterApp = RemoteApp inputs\<rparr>
                    = Inr appToDiff"
    and config: "Diff clients (GroupID appToDiff) (ID appToDiff) (AppData app) = Inr configDiffs"
    and deps: "if IncludeDependencies inputs
               then \<exists>uploadPath dependenciesDiff.
                      PrepareDependencies clients app = Inr uploadPath \<and>
                      DiffDependencies clients (GroupID appToDiff) (ID appToDiff) uploadPath
                        = Inr dependenciesDiff \<and>
                      DependenciesDiff_Strings dependenciesDiff = dependencyDiffs
               else dependencyDiffs = []"
    and hosting: "if IncludeHosting inputs
               then \<exists>hosting appAssets hostingDiffs' cache'.
                      FindAppHosting clients (RootDir app) = Inr hosting \<and>
                      HostingAssets clients (GroupID appToDiff) (ID appToDiff) = Inr appAssets \<and>
                      hosting_Diffs clients hosting (HostingAssetCachePath profile) (ID appToDiff)
                        appAssets (assetCache w) = (Inr hostingDiffs', cache') \<and>
                      HostingDiffs_Strings hostingDiffs' = hostingDiffs
               else hostingDiffs = []"
  shows "fst (Handler clients profile inputs w) = None \<and>
         printed (snd (Handler clients profile inputs w)) =
           printed w @
           [if configDiffs @ dependencyDiffs @ hostingDiffs = []
            then TextLog ''Deployed app is identical to proposed version''
            else TextLog (''The following reflects the proposed changes to your Realm app''
                     @ [CHR 0x0A]
                     @ strings_Join (configDiffs @ dependencyDiffs @ hostingDiffs) [CHR 0x0A])]"
  using Handler_success [OF load root resolve config deps hosting]
  by (simp add: changes_log_def identical_log_def)

text \<open>The handler run on collaborators that return two, one and two entries.\<close>
theorem Handler_concatenates_facets_witness:
  "fst (Handler example_clients example_profile example_inputs example_world) = None \<and>
   printed (snd (Handler example_clients example_profile example_inputs example_world)) =
     [TextLog (''The following reflects the proposed changes to your Realm app'' @ [CHR 0x0A]
               @ strings_Join ([''modified function f'', ''added trigger t'']
                    @ [''+ lodash@4.17.21'']
                    @ [''modified /index.html'', ''added /logo.png'']) [CHR 0x0A])]"
  using Handler_concatenates_facets [of example_clients example_inputs
      "\<lparr>RootDir = ''/work/app'', AppData = ()\<rparr>" "\<lparr>GroupID = ''group'', ID = ''app-abcde''\<rparr>"
      "[''modified function f'', ''added trigger t'']" "[''+ lodash@4.17.21'']"
      example_profile example_world "[''modified /index.html'', ''added /logo.png'']"]
  by (simp add: example_defs)

text \<open>
  Claim C5. When every step succeeds and the concatenated diffs of the requested facets
  are empty, the handler prints the one line "Deployed app is identical to proposed
  version", nothing else, and returns \<^verbatim>\<open>nil\<close>.
\<close>
theorem Handler_no_differences:
  assumes load: "LoadApp clients (LocalPath inputs) = Inr app"
    and root: "RootDir app \<noteq> ''''"
    and resolve: "ResolveApp clients \<lparr>FilterGroupID = Project inputs, FilterApp = RemoteApp inputs\<rparr>
                    = Inr appToDiff"
    and config: "Diff clients (GroupID appToDiff) (ID appToDiff) (AppData app) = Inr configDiffs"
    and deps: "if IncludeDependencies inputs
               then \<exists>uploadPath dependenciesDiff.
                      PrepareDependencies clients app = Inr uploadPath \<and>
                      DiffDependencies clients (GroupID appToDiff) (ID appToDiff) uploadPath
                        = Inr dependenciesDiff \<and>
                      DependenciesDiff_Strings dependenciesDiff = dependencyDiffs
               else dependencyDiffs = []"
    and hosting: "if IncludeHosting inputs
               then \<exists>hosting appAssets hostingDiffs' cache'.
                      FindAppHosting clients (RootDir app) = Inr hosting \<and>
                      HostingAssets clients (GroupID appToDiff) (ID appToDiff) = Inr appAssets \<and>
                      hosting_Diffs clients hosting (HostingAssetCachePath profile) (ID appToDiff)
                        appAssets (assetCache w) = (Inr hostingDiffs', cache') \<and>
                      HostingDiffs_Strings hostingDiffs' = hostingDiffs
               else hostingDiffs = []"
    and empty: "configDiffs @ dependencyDiffs @ hostingDiffs = []"
  shows "fst (Handler clients profile inputs w) = None \<and>
         printed (snd (Handler clients profile inputs w)) =
           printed w @ [TextLog ''Deployed app is identical to proposed version'']"
  using Handler_success [OF load root resolve config deps hosting] empty
  by (simp add: identical_log_def)

text \<open>The handler run on collaborators that find no difference in any facet.\<close>
theorem Handler_no_differences_witness:
  "fst (Handler identical_clients example_profile example_inputs example_world) = None \<and>
   printed (snd (Handler identical_clients example_profile example_inputs example_world)) =
     [TextLog ''Deployed app is identical to proposed version'']"
  using Handler_no_differences [of identical_clients example_inputs
      "\<lparr>RootDir = ''/work/app'', AppData = ()\<rparr>" "\<lparr>GroupID = ''group'', ID = ''app-abcde''\<rparr>"
      "[]" "[]" example_profile example_world "[]"]
  by (simp add: example_defs identical_clients_def)

text \<open>
  Claim C4. With \<^verbatim>\<open>IncludeDependencies\<close> and \<^verbatim>\<open>IncludeHosting\<close> both false the handler
  calls neither \<^verbatim>\<open>PrepareDependencies\<close> nor \<^verbatim>\<open>DiffDependencies\<close>, neither
  \<^verbatim>\<open>FindAppHosting\<close> nor \<^verbatim>\<open>HostingAssets\<close> nor \<^verbatim>\<open>hosting.Diffs\<close>, leaves the asset
  cache and the file system as they were, and its outcome is the same for any other
  dependency and hosting collaborators, any other profile and any other content of the
  cache: it depends on \<^verbatim>\<open>LoadApp\<close>, \<^verbatim>\<open>ResolveApp\<close> and \<^verbatim>\<open>Diff\<close> alone.
\<close>
theorem Handler_config_only:
  assumes "\<not> IncludeDependencies inputs" and "\<not> IncludeHosting inputs"
    and "LoadApp clients' = LoadApp clients" and "ResolveApp clients' = ResolveApp clients"
    and "Diff clients' = Diff clients"
  shows "(\<forall>(c, e) \<in> set (new_calls w (snd (Handler clients profile inputs w))).
            \<not> is_dependency_call c \<and> \<not> is_hosting_call c) \<and>
         assetCache (snd (Handler clients profile inputs w)) = assetCache w \<and>
         removed (snd (Handler clients profile inputs w)) = removed w \<and>
         fst (Handler clients' profile' inputs (w\<lparr>assetCache := cache'\<rparr>)) =
           fst (Handler clients profile inputs w) \<and>
         snd (Handler clients' profile' inputs (w\<lparr>assetCache := cache'\<rparr>)) =
           (snd (Handler clients profile inputs w))\<lparr>assetCache := cache'\<rparr>"
  using assms
  by (auto simp: Handler_defs action_defs new_calls_def split: if_splits sum.splits)

text \<open>
  A configuration-only run makes three calls; with every dependency and hosting
  collaborator failing, another profile and another cache, it ends the same way.
\<close>
theorem Handler_config_only_witness:
  "calls (snd (Handler example_clients example_profile config_only_inputs example_world)) =
     [(CallLoadApp ''/work/app'', None),
      (CallResolveApp \<lparr>FilterGroupID = ''group'', FilterApp = ''app-abcde''\<rparr>, None),
      (CallDiff ''group'' ''app-abcde'', None)] \<and>
   assetCache (snd (Handler example_clients example_profile config_only_inputs example_world)) = 0 \<and>
   Handler failing_clients \<lparr>HostingAssetCachePath = ''elsewhere''\<rparr> config_only_inputs
       (example_world\<lparr>assetCache := 5\<rparr>) =
     (None, (snd (Handler example_clients example_profile config_only_inputs example_world))
               \<lparr>assetCache := 5\<rparr>)"
  using Handler_config_only [of config_only_inputs failing_clients example_clients
      example_world example_profile "\<lparr>HostingAssetCachePath = ''elsewhere''\<rparr>" 5]
  by (simp add: example_defs failing_clients_def config_only_inputs_def new_calls_def
        Handler_defs action_defs prod_eq_iff)

text \<open>
  Claim C9. When \<^verbatim>\<open>LoadApp\<close> succeeds with an empty root directory, the handler
  returns the error "no app directory found at <path>"; the only call made is the one to
  \<^verbatim>\<open>LoadApp\<close> (the remote service is not contacted) and nothing is printed.
\<close>
theorem Handler_no_app_directory:
  assumes "LoadApp clients (LocalPath inputs) = Inr app" and "RootDir app = ''''"
  shows "Handler clients profile inputs w =
           (Some (Errorf (''no app directory found at '' @ LocalPath inputs)),
            w\<lparr>calls := calls w @ [(CallLoadApp (LocalPath inputs), None)], deferred := []\<rparr>)"
  using assms
  by (simp add: Handler_def Handler_body_def action_defs no_app_directory_def)

text \<open>The handler run where no app directory is found at \<^verbatim>\<open>/work/app\<close>.\<close>
theorem Handler_no_app_directory_witness:
  "Handler no_app_clients example_profile example_inputs example_world =
     (Some (Errorf ''no app directory found at /work/app''),
      example_world\<lparr>calls := [(CallLoadApp ''/work/app'', None)]\<rparr>)"
  using Handler_no_app_directory [of no_app_clients example_inputs
      "\<lparr>RootDir = '''', AppData = ()\<rparr>" example_profile example_world]
  by (simp add: example_defs no_app_clients_def)

lemma Handler_failure:
  assumes "Handler clients profile inputs w = (r, w')"
    and "(c, Some e) \<in> set (new_calls w w')"
  shows "r = Some e \<and> printed w' = printed w \<and> last (calls w') = (c, Some e) \<and> tracked w' = tracked w"
  using assms
  by (auto simp: Handler_defs action_defs new_calls_def split: if_splits sum.splits prod.splits)

lemma new_calls_TrackEvent [simp]:
  "new_calls (TrackEvent ev w) w' = new_calls w w'" "new_calls w (TrackEvent ev w') = new_calls w w'"
  by (simp_all add: new_calls_def TrackEvent_def)

text \<open>
  Claim C2. When a collaborator call of a diff invocation returns an error \<open>e\<close>
  (loading the local app, resolving the remote app, any of the three diffs, preparing the
  dependency archive, finding the hosting directory, fetching the hosting assets), that
  call is the last one made, the handler returns \<open>e\<close> itself, \<^verbatim>\<open>RunE\<close> returns it
  wrapped as "<display> failed: <e>" with \<open>e\<close> as the cause, and nothing has been
  printed.
\<close>
theorem diff_failure_aborts:
  assumes run: "RunE display (Handler clients profile inputs) w = (r, w')"
    and failed: "(c, Some e) \<in> set (new_calls w w')"
  shows "fst (Handler clients profile inputs (TrackEvent EventTypeCommandStart w)) = Some e \<and>
         r = Some (suppressUsageError (ErrorfW (display @ '' failed: '' @ Error e) e)) \<and>
         printed w' = printed w \<and>
         last (calls w') = (c, Some e) \<and>
         tracked w' = tracked w @ [EventTypeCommandStart, EventTypeCommandError e]"
proof -
  obtain r0 w0 where h: "Handler clients profile inputs (TrackEvent EventTypeCommandStart w) = (r0, w0)"
    by (cases "Handler clients profile inputs (TrackEvent EventTypeCommandStart w)")
  from run h have w': "w' = TrackEvent (case r0 of Some err \<Rightarrow> EventTypeCommandError err
                                         | None \<Rightarrow> EventTypeCommandComplete) w0"
    by (auto simp: RunE_def split: option.splits)
  with failed have "(c, Some e) \<in> set (new_calls (TrackEvent EventTypeCommandStart w) w0)"
    by simp
  from Handler_failure [OF h this] run h show ?thesis
    by (auto simp: RunE_def TrackEvent_def failed_error_def)
qed

text \<open>
  The hosting assets cannot be fetched after the configuration and dependency diffs were
  computed: their entries are not printed.
\<close>
theorem diff_failure_aborts_witness:
  "RunE ''app diff'' (Handler (example_clients\<lparr>HostingAssets := (\<lambda>g a. Inl (Err ''503''))\<rparr>)
       example_profile example_inputs) example_world =
     (Some (suppressUsageError (ErrorfW ''app diff failed: 503'' (Err ''503''))),
      example_world
        \<lparr>calls := [(CallLoadApp ''/work/app'', None),
            (CallResolveApp \<lparr>FilterGroupID = ''group'', FilterApp = ''app-abcde''\<rparr>, None),
            (CallDiff ''group'' ''app-abcde'', None),
            (CallPrepareDependencies, None),
            (CallDiffDependencies ''group'' ''app-abcde'' ''/tmp/node_modules.zip'', None),
            (CallFindAppHosting ''/work/app'', None),
            (CallHostingAssets ''group'' ''app-abcde'', Some (Err ''503''))],
         removed := [''/tmp/node_modules.zip''],
         tracked := [EventTypeCommandStart, EventTypeCommandError (Err ''503'')]\<rparr>)"
proof -
  let ?clients = "example_clients\<lparr>HostingAssets := (\<lambda>g a. Inl (Err ''503''))\<rparr>"
  let ?run = "RunE ''app diff'' (Handler ?clients example_profile example_inputs) example_world"
  have val: "?run =
     (Some (suppressUsageError (ErrorfW ''app diff failed: 503'' (Err ''503''))),
      example_world
        \<lparr>calls := [(CallLoadApp ''/work/app'', None),
            (CallResolveApp \<lparr>FilterGroupID = ''group'', FilterApp = ''app-abcde''\<rparr>, None),
            (CallDiff ''group'' ''app-abcde'', None),
            (CallPrepareDependencies, None),
            (CallDiffDependencies ''group'' ''app-abcde'' ''/tmp/node_modules.zip'', None),
            (CallFindAppHosting ''/work/app'', None),
            (CallHostingAssets ''group'' ''app-abcde'', Some (Err ''503''))],
         removed := [''/tmp/node_modules.zip''],
         tracked := [EventTypeCommandStart, EventTypeCommandError (Err ''503'')]\<rparr>)"
    by (simp add: example_defs RunE_def TrackEvent_def failed_error_def Handler_defs action_defs)
  have run: "?run = (fst ?run, snd ?run)"
    by simp
  have failed: "(CallHostingAssets ''group'' ''app-abcde'', Some (Err ''503''))
                  \<in> set (new_calls example_world (snd ?run))"
    unfolding val by (simp add: new_calls_def example_world_def)
  from diff_failure_aborts [OF run failed] val show ?thesis
    by simp
qed

section \<open>Properties of the \<^verbatim>\<open>secrets delete\<close> handler\<close>

lemma sink_not_less: "\<forall>y \<in> set ys. \<not> lessFn x y \<Longrightarrow> sink lessFn x ys = x # ys"
  by (cases ys) auto

lemma sink_past:
  "\<forall>y \<in> set ss. lessFn x y \<Longrightarrow> \<forall>y \<in> set fs. \<not> lessFn x y \<Longrightarrow>
     sink lessFn x (ss @ fs) = ss @ x # fs"
  by (induction ss) (auto simp: sink_not_less)

lemma sink_partition:
  "sink (\<lambda>a b. P a \<and> \<not> P b) x (rev (filter P pre @ filter (\<lambda>y. \<not> P y) pre)) =
     rev (filter P (pre @ [x]) @ filter (\<lambda>y. \<not> P y) (pre @ [x]))"
proof (cases "P x")
  case True
  have "sink (\<lambda>a b. P a \<and> \<not> P b) x (rev (filter (\<lambda>y. \<not> P y) pre) @ rev (filter P pre))
          = rev (filter (\<lambda>y. \<not> P y) pre) @ x # rev (filter P pre)"
    using True by (intro sink_past) auto
  with True show ?thesis by simp
next
  case False
  then show ?thesis
    by (simp add: sink_not_less)
qed

lemma insertion_partition:
  "foldl (\<lambda>block x. sink (\<lambda>a b. P a \<and> \<not> P b) x block)
       (rev (filter P pre @ filter (\<lambda>y. \<not> P y) pre)) xs =
     rev (filter P (pre @ xs) @ filter (\<lambda>y. \<not> P y) (pre @ xs))"
proof (induction xs arbitrary: pre)
  case Nil
  then show ?case by simp
next
  case (Cons x xs)
  show ?case
    using Cons.IH [of "pre @ [x]"] by (simp add: sink_partition del: rev_append filter_append)
qed

lemma SliceStable_failed_first:
  "SliceStable failed_first outputs =
     filter (\<lambda>output. output_err output \<noteq> None) outputs @
     filter (\<lambda>output. output_err output = None) outputs"
proof -
  have "failed_first = (\<lambda>a b. output_err a \<noteq> None \<and> \<not> output_err b \<noteq> None)"
    by (simp add: fun_eq_iff failed_first_def)
  then show ?thesis
    using insertion_partition [of "\<lambda>output. output_err output \<noteq> None" "[]" outputs]
    by (simp add: SliceStable_def)
qed

text \<open>
  Any other stable sort gives the same list: a list that is sorted for \<open>failed_first\<close>
  and keeps the failed and the successful outputs in their original order is the failed
  ones followed by the successful ones.
\<close>

lemma sorted_failed_first_partition:
  "sorted_wrt (\<lambda>a b. \<not> failed_first b a) ys \<Longrightarrow>
     ys = filter (\<lambda>output. output_err output \<noteq> None) ys @
          filter (\<lambda>output. output_err output = None) ys"
proof (induction ys)
  case Nil
  then show ?case by simp
next
  case (Cons y ys)
  show ?case
  proof (cases "output_err y")
    case None
    with Cons.prems have "\<forall>z \<in> set ys. output_err z = None"
      by (auto simp: failed_first_def)
    then have "filter (\<lambda>output. output_err output \<noteq> None) ys = []"
      and "filter (\<lambda>output. output_err output = None) ys = ys"
      by (simp_all add: filter_empty_conv)
    with None show ?thesis by simp
  next
    case (Some e)
    with Cons show ?thesis by simp
  qed
qed

lemma stable_sort_failed_first_unique:
  assumes "sorted_wrt (\<lambda>a b. \<not> failed_first b a) ys"
    and "filter (\<lambda>output. output_err output \<noteq> None) ys =
         filter (\<lambda>output. output_err output \<noteq> None) outputs"
    and "filter (\<lambda>output. output_err output = None) ys =
         filter (\<lambda>output. output_err output = None) outputs"
  shows "ys = SliceStable failed_first outputs"
  using sorted_failed_first_partition [OF assms(1)] assms(2) assms(3)
  by (simp add: SliceStable_failed_first)

lemma delete_each_outputs:
  "delete_each env app selected w = (outputs, w') \<Longrightarrow>
     map output_secret outputs = selected \<and>
     secrets_calls w' = secrets_calls w @
       map (\<lambda>output. (CallDeleteSecret (GroupID app) (ID app) (SecretID (output_secret output)),
                       output_err output)) outputs \<and>
     secrets_printed w' = secrets_printed w"
proof (induction selected arbitrary: w outputs w')
  case Nil
  then show ?case by simp
next
  case (Cons secret rest)
  then show ?case
    by (fastforce split: prod.splits)
qed

lemmas secrets_defs = delete_Handler_def delete_Handler_body_def bind_def secrets_invoke_def
  secrets_Print_def

lemma length_SliceStable_failed_first: "length (SliceStable failed_first xs) = length xs"
proof -
  have "length (filter (\<lambda>output. output_err output \<noteq> None) xs) +
        length (filter (\<lambda>output. \<not> output_err output \<noteq> None) xs) = length xs"
    by (rule sum_length_filter_compl)
  then show ?thesis
    by (simp add: SliceStable_failed_first)
qed

text \<open>
  Claim C10. Once the app, its secrets and the selection are resolved, the handler of
  \<^verbatim>\<open>secrets delete\<close> returns \<^verbatim>\<open>nil\<close>. For an empty selection it prints "No secrets
  to delete" and calls \<^verbatim>\<open>DeleteSecret\<close> not at all. Otherwise it calls
  \<^verbatim>\<open>DeleteSecret\<close> once for each selected secret, in order, whatever the earlier calls
  returned, and the table it prints lists the failed deletions, in their original order,
  before the successful ones, in theirs.
\<close>
theorem delete_Handler_attempts_every_secret:
  assumes resolve: "secrets_ResolveApp env (inputs_Filter inputs) = Inr app"
    and secrets: "Secrets env (GroupID app) (ID app) = Inr secrets"
    and selected: "resolveSecrets env inputs secrets = Inr selected"
    and run: "delete_Handler env inputs w = (r, w')"
  shows "r = None \<and>
         (selected = [] \<longrightarrow>
            secrets_printed w' = secrets_printed w @ [TextLog ''No secrets to delete''] \<and>
            secrets_calls w' = secrets_calls w @
              [(CallSecretsResolveApp (inputs_Filter inputs), None),
               (CallSecrets (GroupID app) (ID app), None),
               (CallResolveSecrets, None)] \<and>
            realm w' = realm w) \<and>
         (selected \<noteq> [] \<longrightarrow>
            (\<exists>outputs.
               map output_secret outputs = selected \<and>
               secrets_calls w' = secrets_calls w @
                 [(CallSecretsResolveApp (inputs_Filter inputs), None),
                  (CallSecrets (GroupID app) (ID app), None),
                  (CallResolveSecrets, None)] @
                 map (\<lambda>output. (CallDeleteSecret (GroupID app) (ID app)
                                   (SecretID (output_secret output)), output_err output)) outputs \<and>
               secrets_printed w' = secrets_printed w @
                 [TableLog (''Deleted '' @ Itoa (length selected) @ '' secret(s)'')
                    (tableHeaders env [headerDeleted env, headerDetails env])
                    (tableRows env
                       (filter (\<lambda>output. output_err output \<noteq> None) outputs @
                        filter (\<lambda>output. output_err output = None) outputs)
                       (tableRowDelete (headerDeleted env) (headerDetails env)))]))"
proof (cases "selected = []")
  case True
  with assms show ?thesis
    by (auto simp: secrets_defs)
next
  case False
  let ?w3 = "w\<lparr>secrets_calls := secrets_calls w @
              [(CallSecretsResolveApp (inputs_Filter inputs), None),
               (CallSecrets (GroupID app) (ID app), None),
               (CallResolveSecrets, None)]\<rparr>"
  obtain outputs w4 where loop: "delete_each env app selected ?w3 = (outputs, w4)"
    by (cases "delete_each env app selected ?w3")
  note facts = delete_each_outputs [OF loop]
  have len: "length outputs = length selected"
    using facts by (metis length_map)
  have sorted: "SliceStable failed_first outputs =
      filter (\<lambda>output. output_err output \<noteq> None) outputs @
      filter (\<lambda>output. output_err output = None) outputs"
    by (rule SliceStable_failed_first)
  from assms False loop have r: "r = None"
    and w': "w' = w4\<lparr>secrets_printed := secrets_printed w4 @
                 [TableLog (''Deleted '' @ Itoa (length (SliceStable failed_first outputs))
                              @ '' secret(s)'')
                    (tableHeaders env [headerDeleted env, headerDetails env])
                    (tableRows env (SliceStable failed_first outputs)
                       (tableRowDelete (headerDeleted env) (headerDetails env)))]\<rparr>"
    by (auto simp: secrets_defs)
  have "map output_secret outputs = selected \<and>
        secrets_calls w' = secrets_calls w @
                 [(CallSecretsResolveApp (inputs_Filter inputs), None),
                  (CallSecrets (GroupID app) (ID app), None),
                  (CallResolveSecrets, None)] @
                 map (\<lambda>output. (CallDeleteSecret (GroupID app) (ID app)
                                   (SecretID (output_secret output)), output_err output)) outputs \<and>
        secrets_printed w' = secrets_printed w @
                 [TableLog (''Deleted '' @ Itoa (length selected) @ '' secret(s)'')
                    (tableHeaders env [headerDeleted env, headerDetails env])
                    (tableRows env
                       (filter (\<lambda>output. output_err output \<noteq> None) outputs @
                        filter (\<lambda>output. output_err output = None) outputs)
                       (tableRowDelete (headerDeleted env) (headerDetails env)))]"
    using facts unfolding w' sorted [symmetric]
    by (simp add: length_SliceStable_failed_first len)
  with r False show ?thesis
    by blast
qed

text \<open>
  Three secrets are selected; the first and the third cannot be deleted. All three
  deletions are attempted and the two failures are listed first.
\<close>
theorem delete_Handler_attempts_every_secret_witness:
  "fst (delete_Handler example_secrets_env example_delete_inputs example_secrets_world) = None \<and>
   secrets_calls (snd (delete_Handler example_secrets_env example_delete_inputs
                        example_secrets_world)) =
     [(CallSecretsResolveApp \<lparr>FilterGroupID = ''group'', FilterApp = ''app-abcde''\<rparr>, None),
      (CallSecrets ''group'' ''app-abcde'', None),
      (CallResolveSecrets, None),
      (CallDeleteSecret ''group'' ''app-abcde'' ''id1'', Some (Err ''secret not found'')),
      (CallDeleteSecret ''group'' ''app-abcde'' ''id2'', None),
      (CallDeleteSecret ''group'' ''app-abcde'' ''id3'', Some (Err ''secret not found''))] \<and>
   secrets_printed (snd (delete_Handler example_secrets_env example_delete_inputs
                          example_secrets_world)) =
     [TableLog ''Deleted 3 secret(s)'' [''ID'', ''Name'', ''Deleted'', ''Details'']
        (tableRows example_secrets_env
           [\<lparr>output_secret = \<lparr>SecretID = ''id1'', SecretName = ''apiKey''\<rparr>,
              output_err = Some (Err ''secret not found'')\<rparr>,
            \<lparr>output_secret = \<lparr>SecretID = ''id3'', SecretName = ''token''\<rparr>,
              output_err = Some (Err ''secret not found'')\<rparr>,
            \<lparr>output_secret = \<lparr>SecretID = ''id2'', SecretName = ''dbPassword''\<rparr>,
              output_err = None\<rparr>]
           (tableRowDelete ''Deleted'' ''Details''))]"
proof -
  let ?run = "delete_Handler example_secrets_env example_delete_inputs example_secrets_world"
  let ?app = "\<lparr>GroupID = ''group'', ID = ''app-abcde''\<rparr>"
  let ?selected = "[\<lparr>SecretID = ''id1'', SecretName = ''apiKey''\<rparr>,
      \<lparr>SecretID = ''id2'', SecretName = ''dbPassword''\<rparr>,
      \<lparr>SecretID = ''id3'', SecretName = ''token''\<rparr>]"
  have resolve: "secrets_ResolveApp example_secrets_env (inputs_Filter example_delete_inputs) = Inr ?app"
    by (simp add: example_secrets_env_def)
  have secrets: "Secrets example_secrets_env (GroupID ?app) (ID ?app) = Inr example_secrets"
    by (simp add: example_secrets_env_def)
  have selected: "resolveSecrets example_secrets_env example_delete_inputs example_secrets
                    = Inr ?selected"
    by (simp add: example_secrets_env_def example_delete_inputs_def example_secrets_def)
  have run: "?run = (fst ?run, snd ?run)"
    by simp
  have val: "secrets_calls (snd ?run) =
     [(CallSecretsResolveApp \<lparr>FilterGroupID = ''group'', FilterApp = ''app-abcde''\<rparr>, None),
      (CallSecrets ''group'' ''app-abcde'', None),
      (CallResolveSecrets, None),
      (CallDeleteSecret ''group'' ''app-abcde'' ''id1'', Some (Err ''secret not found'')),
      (CallDeleteSecret ''group'' ''app-abcde'' ''id2'', None),
      (CallDeleteSecret ''group'' ''app-abcde'' ''id3'', Some (Err ''secret not found''))] \<and>
   secrets_printed (snd ?run) =
     [TableLog ''Deleted 3 secret(s)'' [''ID'', ''Name'', ''Deleted'', ''Details'']
        (tableRows example_secrets_env
           [\<lparr>output_secret = \<lparr>SecretID = ''id1'', SecretName = ''apiKey''\<rparr>,
              output_err = Some (Err ''secret not found'')\<rparr>,
            \<lparr>output_secret = \<lparr>SecretID = ''id3'', SecretName = ''token''\<rparr>,
              output_err = Some (Err ''secret not found'')\<rparr>,
            \<lparr>output_secret = \<lparr>SecretID = ''id2'', SecretName = ''dbPassword''\<rparr>,
              output_err = None\<rparr>]
           (tableRowDelete ''Deleted'' ''Details''))]"
    by (simp add: secrets_defs example_secrets_env_def example_delete_inputs_def
          example_secrets_def example_secrets_world_def SliceStable_def failed_first_def
          Itoa.simps digit_char_def)
  from delete_Handler_attempts_every_secret [OF resolve secrets selected run] val
  show ?thesis
    by simp
qed

section \<open>Properties of the diff engine of the specification\<close>

lemma local_asset_usable:
  assumes "cache st = Usable entries"
  shows "local_asset hashFn appID file st =
           (asset_of file (local_digest hashFn entries appID file),
            if entry_valid entries appID file then st
            else st\<lparr>cache := Usable (entries((appID, relativePath file) \<mapsto> new_entry hashFn appID file)),
                    hashed := hashed st @ [relativePath file]\<rparr>)"
  using assms
  by (auto simp: local_asset_def cache_get_def cache_put_def rehash_def entry_valid_def
        local_digest_def new_entry_def split: option.splits)

lemma entry_valid_other:
  "relativePath g \<noteq> relativePath file \<Longrightarrow>
     entry_valid (entries((appID, relativePath file) \<mapsto> e)) appID g = entry_valid entries appID g"
  by (simp add: entry_valid_def)

lemma local_digest_other:
  "relativePath g \<noteq> relativePath file \<Longrightarrow>
     local_digest hashFn (entries((appID, relativePath file) \<mapsto> e)) appID g
       = local_digest hashFn entries appID g"
  by (simp add: local_digest_def)

lemma local_assets_usable:
  assumes "cache st = Usable entries" and "distinct (map relativePath files)"
    and "local_assets hashFn appID files st = (assets, st')"
  shows "\<exists>entries'.
           cache st' = Usable entries' \<and>
           hashed st' = hashed st @
             map relativePath (filter (\<lambda>file. \<not> entry_valid entries appID file) files) \<and>
           assets = map (\<lambda>file. asset_of file (local_digest hashFn entries appID file)) files \<and>
           (\<forall>file \<in> set files.
              entries' (appID, relativePath file) =
                (if entry_valid entries appID file then entries (appID, relativePath file)
                 else Some (new_entry hashFn appID file))) \<and>
           (\<forall>key. key \<notin> (\<lambda>file. (appID, relativePath file)) ` set files \<longrightarrow>
              entries' key = entries key)"
  using assms
proof (induction files arbitrary: st entries assets st')
  case Nil
  then show ?case by simp
next
  case (Cons f fs)
  let ?key = "(appID, relativePath f)"
  have others: "\<forall>g \<in> set fs. relativePath g \<noteq> relativePath f"
    using Cons.prems(2) by (metis distinct.simps(2) imageI list.simps(9) set_map)
  have distinct: "distinct (map relativePath fs)"
    using Cons.prems(2) by simp
  obtain asset st1 where one: "local_asset hashFn appID f st = (asset, st1)"
    by (cases "local_asset hashFn appID f st")
  obtain rest st2 where more: "local_assets hashFn appID fs st1 = (rest, st2)"
    by (cases "local_assets hashFn appID fs st1")
  from Cons.prems(3) one more have result: "assets = asset # rest" "st' = st2"
    by simp_all
  note step = one [unfolded local_asset_usable [OF Cons.prems(1)]]
  show ?case
  proof (cases "entry_valid entries appID f")
    case True
    with step have st1: "st1 = st" and asset: "asset = asset_of f (local_digest hashFn entries appID f)"
      by simp_all
    from Cons.IH [OF _ distinct more] Cons.prems(1) st1
    obtain entries' where ih:
      "cache st2 = Usable entries'"
      "hashed st2 = hashed st @
         map relativePath (filter (\<lambda>g. \<not> entry_valid entries appID g) fs)"
      "rest = map (\<lambda>g. asset_of g (local_digest hashFn entries appID g)) fs"
      "\<forall>g \<in> set fs.
          entries' (appID, relativePath g) =
            (if entry_valid entries appID g then entries (appID, relativePath g)
             else Some (new_entry hashFn appID g))"
      "\<forall>key. key \<notin> (\<lambda>g. (appID, relativePath g)) ` set fs \<longrightarrow> entries' key = entries key"
      by blast
    have "?key \<notin> (\<lambda>g. (appID, relativePath g)) ` set fs"
      using others by auto
    with ih(5) have "entries' ?key = entries ?key"
      by blast
    with ih True result asset show ?thesis
      by auto
  next
    case False
    let ?entries1 = "entries(?key \<mapsto> new_entry hashFn appID f)"
    from False step have st1: "st1 = st\<lparr>cache := Usable ?entries1, hashed := hashed st @ [relativePath f]\<rparr>"
      and asset: "asset = asset_of f (local_digest hashFn entries appID f)"
      by simp_all
    have cache1: "cache st1 = Usable ?entries1"
      by (simp add: st1)
    from Cons.IH [OF cache1 distinct more]
    obtain entries' where ih:
      "cache st2 = Usable entries'"
      "hashed st2 = hashed st1 @
         map relativePath (filter (\<lambda>g. \<not> entry_valid ?entries1 appID g) fs)"
      "rest = map (\<lambda>g. asset_of g (local_digest hashFn ?entries1 appID g)) fs"
      "\<forall>g \<in> set fs.
          entries' (appID, relativePath g) =
            (if entry_valid ?entries1 appID g then ?entries1 (appID, relativePath g)
             else Some (new_entry hashFn appID g))"
      "\<forall>key. key \<notin> (\<lambda>g. (appID, relativePath g)) ` set fs \<longrightarrow> entries' key = ?entries1 key"
      by blast
    have same_valid: "filter (\<lambda>g. \<not> entry_valid ?entries1 appID g) fs
                        = filter (\<lambda>g. \<not> entry_valid entries appID g) fs"
      using others by (intro filter_cong) (auto simp: entry_valid_other)
    have same_digest: "map (\<lambda>g. asset_of g (local_digest hashFn ?entries1 appID g)) fs
                        = map (\<lambda>g. asset_of g (local_digest hashFn entries appID g)) fs"
      using others by (intro map_cong) (auto simp: local_digest_other)
    have "?key \<notin> (\<lambda>g. (appID, relativePath g)) ` set fs"
      using others by auto
    with ih(5) have here: "entries' ?key = Some (new_entry hashFn appID f)"
      by simp
    have there: "\<forall>g \<in> set fs.
          entries' (appID, relativePath g) =
            (if entry_valid entries appID g then entries (appID, relativePath g)
             else Some (new_entry hashFn appID g))"
      using ih(4) others by (auto simp: entry_valid_other)
    have far: "\<forall>key. key \<notin> (\<lambda>g. (appID, relativePath g)) ` set (f # fs) \<longrightarrow>
                 entries' key = entries key"
      using ih(5) by auto
    show ?thesis
      using ih(1) ih(2) ih(3) same_valid same_digest here there far False result asset st1
      by auto
  qed
qed

lemma local_asset_unreadable:
  assumes "\<not> readable (cache st)"
  shows "\<exists>store'. \<not> readable store' \<and>
           local_asset hashFn appID f st =
             (asset_of f (hashFn (content f)),
              st\<lparr>cache := store', hashed := hashed st @ [relativePath f]\<rparr>)"
proof -
  let ?store = "snd (cache_put (cache st) appID (relativePath f) (hashFn (content f))
                       (signature f))"
  have "\<not> readable ?store"
    using assms by (cases "cache st") (simp_all add: cache_put_def)
  moreover have "local_asset hashFn appID f st =
                   (asset_of f (hashFn (content f)),
                    st\<lparr>cache := ?store, hashed := hashed st @ [relativePath f]\<rparr>)"
    using assms
    by (cases "cache st") (simp_all add: local_asset_def cache_get_def rehash_def cache_put_def)
  ultimately show ?thesis
    by blast
qed

lemma local_assets_unreadable:
  "\<not> readable (cache st) \<Longrightarrow>
     \<exists>store'. \<not> readable store' \<and>
       local_assets hashFn appID files st =
         (map (\<lambda>g. asset_of g (hashFn (content g))) files,
          st\<lparr>cache := store', hashed := hashed st @ map relativePath files\<rparr>)"
proof (induction files arbitrary: st)
  case Nil
  have "st = st\<lparr>cache := cache st, hashed := hashed st\<rparr>"
    by simp
  with Nil show ?case
    by (intro exI [of _ "cache st"]) simp
next
  case (Cons f fs)
  from local_asset_unreadable [OF Cons.prems, of hashFn appID f]
  obtain store1 where one: "\<not> readable store1"
    "local_asset hashFn appID f st =
       (asset_of f (hashFn (content f)),
        st\<lparr>cache := store1, hashed := hashed st @ [relativePath f]\<rparr>)"
    by blast
  let ?st1 = "st\<lparr>cache := store1, hashed := hashed st @ [relativePath f]\<rparr>"
  have "\<not> readable (cache ?st1)"
    using one(1) by simp
  from Cons.IH [OF this]
  obtain store2 where more: "\<not> readable store2"
    "local_assets hashFn appID fs ?st1 =
       (map (\<lambda>g. asset_of g (hashFn (content g))) fs,
        ?st1\<lparr>cache := store2, hashed := hashed ?st1 @ map relativePath fs\<rparr>)"
    by blast
  show ?case
    using one(2) more by (intro exI [of _ store2]) simp
qed

lemma local_assets_unwritable:
  "cache st = Unwritable stored \<Longrightarrow>
     \<exists>st'. local_assets hashFn appID files st =
             (map (\<lambda>g. asset_of g (local_digest hashFn stored appID g)) files, st') \<and>
           cache st' = Unwritable stored \<and>
           hashed st' = hashed st @
             map relativePath (filter (\<lambda>g. \<not> entry_valid stored appID g) files)"
proof (induction files arbitrary: st)
  case Nil
  then show ?case by simp
next
  case (Cons f fs)
  obtain asset st1 where one: "local_asset hashFn appID f st = (asset, st1)"
    by (cases "local_asset hashFn appID f st")
  with Cons.prems have step:
    "asset = asset_of f (local_digest hashFn stored appID f)"
    "cache st1 = Unwritable stored"
    "hashed st1 = hashed st @ (if entry_valid stored appID f then [] else [relativePath f])"
    by (auto simp: local_asset_def cache_get_def rehash_def cache_put_def local_digest_def
          entry_valid_def split: option.splits if_splits)
  from Cons.IH [OF step(2)]
  obtain st2 where more:
    "local_assets hashFn appID fs st1 =
       (map (\<lambda>g. asset_of g (local_digest hashFn stored appID g)) fs, st2)"
    "cache st2 = Unwritable stored"
    "hashed st2 = hashed st1 @
       map relativePath (filter (\<lambda>g. \<not> entry_valid stored appID g) fs)"
    by blast
  show ?case
    using one step more by (intro exI [of _ st2]) simp
qed

lemma find_asset_path:
  "find_asset assets p = Some a \<Longrightarrow> p \<in> set (map asset_path assets)"
  by (induction assets) (auto simp: find_asset_def split: if_splits)

lemma entry_changed_content_iff:
  "Changed p Hosting ''content'' \<in> set (hosting_entry localAssets manifest q) \<longleftrightarrow>
     q = p \<and> (\<exists>l r. find_asset localAssets p = Some l \<and> find_asset manifest p = Some r \<and>
                    asset_digest l \<noteq> asset_digest r)"
  by (auto simp: hosting_entry_def split: option.splits)

lemma changed_content_iff:
  "Changed p Hosting ''content'' \<in> set (hosting_entries localAssets manifest) \<longleftrightarrow>
     (\<exists>l r. find_asset localAssets p = Some l \<and> find_asset manifest p = Some r \<and>
            asset_digest l \<noteq> asset_digest r)"
proof -
  have "Changed p Hosting ''content'' \<in> set (hosting_entries localAssets manifest) \<longleftrightarrow>
          (\<exists>q \<in> set (map asset_path localAssets) \<union> set (map asset_path manifest).
             Changed p Hosting ''content'' \<in> set (hosting_entry localAssets manifest q))"
    by (auto simp: hosting_entries_def)
  also have "\<dots> \<longleftrightarrow>
          (\<exists>l r. find_asset localAssets p = Some l \<and> find_asset manifest p = Some r \<and>
            asset_digest l \<noteq> asset_digest r)"
    unfolding entry_changed_content_iff using find_asset_path [of localAssets p]
    by blast
  finally show ?thesis .
qed

lemma find_asset_of:
  assumes "distinct (map relativePath files)" and "file \<in> set files"
  shows "find_asset (map (\<lambda>file. asset_of file (d file)) files) (relativePath file)
           = Some (asset_of file (d file))"
  using assms
  by (induction files) (auto simp: find_asset_def asset_of_def)

lemma distinct_same:
  "distinct (map h xs) \<Longrightarrow> x \<in> set xs \<Longrightarrow> y \<in> set xs \<Longrightarrow> h x = h y \<Longrightarrow> x = y"
  by (meson distinct_map inj_on_eq_iff)

lemma hosting_diff_usable:
  assumes "cache st = Usable entries" and "distinct (map relativePath (hosting_files nodes))"
    and "hosting_diff hashFn appID nodes manifest st = (diffs, st')"
  shows "\<exists>entries'.
           cache st' = Usable entries' \<and>
           drop (length (hashed st)) (hashed st') =
             map relativePath (filter (\<lambda>g. \<not> entry_valid entries appID g) (hosting_files nodes)) \<and>
           diffs = hosting_entries
                     (map (\<lambda>g. asset_of g (local_digest hashFn entries appID g)) (hosting_files nodes))
                     manifest \<and>
           (\<forall>g \<in> set (hosting_files nodes).
              entries' (appID, relativePath g) =
                (if entry_valid entries appID g then entries (appID, relativePath g)
                 else Some (new_entry hashFn appID g))) \<and>
           (\<forall>key. key \<notin> (\<lambda>g. (appID, relativePath g)) ` set (hosting_files nodes) \<longrightarrow>
              entries' key = entries key)"
proof -
  obtain assets where run: "local_assets hashFn appID (hosting_files nodes) st = (assets, st')"
    and diffs: "diffs = hosting_entries assets manifest"
    using assms(3) by (auto simp: hosting_diff_def split: prod.splits)
  from local_assets_usable [OF assms(1) assms(2) run] diffs show ?thesis
    by auto
qed

text \<open>
  Claim C3, as amended. Two hosting diffs run one after the other on a usable cache, over
  local files with unique paths. For a file of the second run that the first run has
  seen, an entry for (appID, path) exists after the first run, holding the signature seen
  then. If the file's signature is unchanged, the second run does not hash the file,
  leaves the entry as it is, and reports \<open>Changed\<close> with detail \<^verbatim>\<open>content\<close> exactly
  when the manifest lists the path with a digest other than the cached one. If the
  signature has changed, the second run hashes the file, replaces the entry for
  (appID, path) by the new digest and signature, and reports \<open>Changed\<close> with detail
  \<^verbatim>\<open>content\<close> exactly when the manifest lists the path with a digest other than the new
  one. Entries under other keys are untouched.
\<close>
theorem hosting_cache_second_run:
  assumes usable: "cache st0 = Usable entries0"
    and first: "hosting_diff hashFn appID nodes manifest st0 = (diffs1, st1)"
    and second: "hosting_diff hashFn appID nodes' manifest' st1 = (diffs2, st2)"
    and d1: "distinct (map relativePath (hosting_files nodes))"
    and d2: "distinct (map relativePath (hosting_files nodes'))"
    and f: "f \<in> set (hosting_files nodes)"
    and f': "f' \<in> set (hosting_files nodes')"
    and path: "relativePath f' = relativePath f"
  shows "\<exists>entries1 entries2 entry1.
           cache st1 = Usable entries1 \<and> cache st2 = Usable entries2 \<and>
           entries1 (appID, relativePath f) = Some entry1 \<and> lastSeen entry1 = signature f \<and>
           (signature f' = signature f \<longrightarrow>
              relativePath f \<notin> set (drop (length (hashed st1)) (hashed st2)) \<and>
              entries2 (appID, relativePath f) = Some entry1 \<and>
              (Changed (relativePath f) Hosting ''content'' \<in> set diffs2 \<longleftrightarrow>
                 (\<exists>r. find_asset manifest' (relativePath f) = Some r \<and>
                      asset_digest r \<noteq> entry_digest entry1))) \<and>
           (signature f' \<noteq> signature f \<longrightarrow>
              relativePath f \<in> set (drop (length (hashed st1)) (hashed st2)) \<and>
              entries2 (appID, relativePath f) =
                Some \<lparr>entry_appID = appID, entry_path = relativePath f,
                      entry_digest = hashFn (content f'), lastSeen = signature f'\<rparr> \<and>
              (Changed (relativePath f) Hosting ''content'' \<in> set diffs2 \<longleftrightarrow>
                 (\<exists>r. find_asset manifest' (relativePath f) = Some r \<and>
                      asset_digest r \<noteq> hashFn (content f')))) \<and>
           (\<forall>key. key \<notin> (\<lambda>g. (appID, relativePath g)) ` set (hosting_files nodes') \<longrightarrow>
              entries2 key = entries1 key)"
proof -
  from hosting_diff_usable [OF usable d1 first]
  obtain entries1 where run1:
    "cache st1 = Usable entries1"
    "\<forall>g \<in> set (hosting_files nodes).
        entries1 (appID, relativePath g) =
          (if entry_valid entries0 appID g then entries0 (appID, relativePath g)
           else Some (new_entry hashFn appID g))"
    by blast
  from run1(2) f obtain entry1 where entry1:
    "entries1 (appID, relativePath f) = Some entry1" "lastSeen entry1 = signature f"
    by (cases "entry_valid entries0 appID f")
       (auto simp: entry_valid_def new_entry_def split: option.splits)
  from hosting_diff_usable [OF run1(1) d2 second]
  obtain entries2 where run2:
    "cache st2 = Usable entries2"
    "drop (length (hashed st1)) (hashed st2) =
       map relativePath (filter (\<lambda>g. \<not> entry_valid entries1 appID g) (hosting_files nodes'))"
    "diffs2 = hosting_entries
                (map (\<lambda>g. asset_of g (local_digest hashFn entries1 appID g)) (hosting_files nodes'))
                manifest'"
    "\<forall>g \<in> set (hosting_files nodes').
        entries2 (appID, relativePath g) =
          (if entry_valid entries1 appID g then entries1 (appID, relativePath g)
           else Some (new_entry hashFn appID g))"
    "\<forall>key. key \<notin> (\<lambda>g. (appID, relativePath g)) ` set (hosting_files nodes') \<longrightarrow>
        entries2 key = entries1 key"
    by blast
  have valid: "entry_valid entries1 appID f' \<longleftrightarrow> signature f' = signature f"
    using entry1 path by (auto simp: entry_valid_def)
  have digest: "local_digest hashFn entries1 appID f' =
                  (if signature f' = signature f then entry_digest entry1 else hashFn (content f'))"
    using entry1 path by (auto simp: local_digest_def)
  have hashed: "relativePath f \<in> set (drop (length (hashed st1)) (hashed st2)) \<longleftrightarrow>
                  signature f' \<noteq> signature f"
  proof
    assume "relativePath f \<in> set (drop (length (hashed st1)) (hashed st2))"
    then obtain g where g: "g \<in> set (hosting_files nodes')" "\<not> entry_valid entries1 appID g"
        "relativePath g = relativePath f'"
      unfolding run2(2) using path by auto
    from distinct_same [OF d2 g(1) f' g(3)] g(2) valid show "signature f' \<noteq> signature f"
      by simp
  next
    assume "signature f' \<noteq> signature f"
    with valid f'
    have "f' \<in> set (filter (\<lambda>g. \<not> entry_valid entries1 appID g) (hosting_files nodes'))"
      by simp
    then have "relativePath f' \<in>
                 relativePath ` set (filter (\<lambda>g. \<not> entry_valid entries1 appID g)
                                       (hosting_files nodes'))"
      by (rule imageI)
    then show "relativePath f \<in> set (drop (length (hashed st1)) (hashed st2))"
      unfolding run2(2) path by simp
  qed
  have entry2: "entries2 (appID, relativePath f) =
                  (if signature f' = signature f then Some entry1
                   else Some (new_entry hashFn appID f'))"
    using run2(4) f' path valid entry1(1) by auto
  have found: "find_asset
                 (map (\<lambda>g. asset_of g (local_digest hashFn entries1 appID g)) (hosting_files nodes'))
                 (relativePath f) = Some (asset_of f' (local_digest hashFn entries1 appID f'))"
    using find_asset_of [OF d2 f', of "\<lambda>g. local_digest hashFn entries1 appID g"] path by simp
  have changed: "Changed (relativePath f) Hosting ''content'' \<in> set diffs2 \<longleftrightarrow>
                   (\<exists>r. find_asset manifest' (relativePath f) = Some r \<and>
                        asset_digest r \<noteq> local_digest hashFn entries1 appID f')"
    unfolding run2(3) changed_content_iff found by (auto simp: asset_of_def)
  show ?thesis
    using run1(1) run2(1) run2(5) entry1 hashed entry2 changed digest path
    by (auto simp: new_entry_def)
qed

lemmas hosting_defs = hosting_diff_def hosting_files_def local_asset_def cache_get_def
  cache_put_def rehash_def asset_of_def hosting_entries_def hosting_entry_def find_asset_def

lemmas hosting_example_defs = example_hash_def index_v1_def index_v2_def
  index_v2_same_signature_def logo_def remote_index_v1_def remote_index_v2_def remote_logo_def
  empty_cache_state_def

lemma after_first_run_value:
  "after_first_run =
     \<lparr>cache = Usable
        [(''app-abcde'', ''/index.html'') \<mapsto>
           \<lparr>entry_appID = ''app-abcde'', entry_path = ''/index.html'',
            entry_digest = ''sha:<h1>v1</h1>'', lastSeen = 1\<rparr>,
         (''app-abcde'', ''/img/logo.png'') \<mapsto>
           \<lparr>entry_appID = ''app-abcde'', entry_path = ''/img/logo.png'',
            entry_digest = ''sha:PNG'', lastSeen = 7\<rparr>],
      hashed = [''/index.html'', ''/img/logo.png'']\<rparr>"
  by (simp add: after_first_run_def hosting_defs hosting_example_defs)

text \<open>
  After a first run over two files, a second run over the same files hashes nothing; once
  \<^verbatim>\<open>/index.html\<close> has new content and a new signature, the second run hashes it and
  reports it changed against the old manifest.
\<close>
theorem hosting_cache_second_run_witness:
  "hosting_diff example_hash ''app-abcde'' [index_v1, logo] [remote_index_v1, remote_logo]
     after_first_run = ([], after_first_run) \<and>
   fst (hosting_diff example_hash ''app-abcde'' [index_v2, logo] [remote_index_v1, remote_logo]
          after_first_run) = [Changed ''/index.html'' Hosting ''content''] \<and>
   hashed (snd (hosting_diff example_hash ''app-abcde'' [index_v2, logo]
                  [remote_index_v1, remote_logo] after_first_run)) =
     hashed after_first_run @ [''/index.html'']"
proof -
  let ?first = "hosting_diff example_hash ''app-abcde'' [index_v1, logo]
                  [remote_index_v1, remote_logo] empty_cache_state"
  let ?second = "hosting_diff example_hash ''app-abcde'' [index_v2, logo]
                   [remote_index_v1, remote_logo] after_first_run"
  have usable: "cache empty_cache_state = Usable Map.empty"
    by (simp add: empty_cache_state_def)
  have first: "?first = (fst ?first, after_first_run)"
    by (simp add: after_first_run_def)
  have second: "?second = (fst ?second, snd ?second)"
    by simp
  have d1: "distinct (map relativePath (hosting_files [index_v1, logo]))"
    by (simp add: hosting_files_def hosting_example_defs)
  have d2: "distinct (map relativePath (hosting_files [index_v2, logo]))"
    by (simp add: hosting_files_def hosting_example_defs)
  have f: "index_v1 \<in> set (hosting_files [index_v1, logo])"
    by (simp add: hosting_files_def hosting_example_defs)
  have f': "index_v2 \<in> set (hosting_files [index_v2, logo])"
    by (simp add: hosting_files_def hosting_example_defs)
  have path: "relativePath index_v2 = relativePath index_v1"
    by (simp add: hosting_example_defs)
  have val: "hosting_diff example_hash ''app-abcde'' [index_v1, logo] [remote_index_v1, remote_logo]
     after_first_run = ([], after_first_run) \<and>
   fst ?second = [Changed ''/index.html'' Hosting ''content''] \<and>
   hashed (snd ?second) = hashed after_first_run @ [''/index.html'']"
    unfolding after_first_run_value
    by (simp add: hosting_defs hosting_example_defs)
  from hosting_cache_second_run [OF usable first second d1 d2 f f' path] val
  show ?thesis
    by simp
qed

text \<open>
  Claim C3 as stated fails: a file whose content has changed is not hashed again when its
  signature is the one recorded (the run changes nothing and reports nothing), and a
  changed file that is hashed again is not reported when its new digest is the one in the
  manifest.
\<close>
theorem changed_content_counterexample:
  "content index_v2_same_signature \<noteq> content index_v1 \<and>
   hosting_diff example_hash ''app-abcde'' [index_v2_same_signature, logo]
     [remote_index_v1, remote_logo] after_first_run = ([], after_first_run) \<and>
   content index_v2 \<noteq> content index_v1 \<and>
   fst (hosting_diff example_hash ''app-abcde'' [index_v2, logo] [remote_index_v2, remote_logo]
          after_first_run) = []"
  unfolding after_first_run_value
  by (simp add: hosting_defs hosting_example_defs)

text \<open>
  Claim C8, as amended. When the files are loaded and the manifest fetched, over local
  files with unique paths, a hosting diff whose cache store is unreadable or unwritable
  does not fail: it returns its entries. If the store is unreadable, every local file is
  hashed, and the entries are those a usable cache would give, provided every entry of
  that cache whose signature is the file's holds the digest of the file's content. If the
  store is readable but unwritable, the valid entries are reused, exactly the files
  without a valid entry are hashed, the failed writes are ignored, and the entries are
  those the usable store of the same content would give.
\<close>
theorem cache_failure_recovered:
  assumes load: "loadHostingFiles hostingRoot = Inr nodes"
    and fetch: "fetchHostingManifest groupID appID = Inr manifest"
    and failing: "\<not> readable (cache st) \<or> \<not> writable (cache st)"
    and unique: "distinct (map relativePath (hosting_files nodes))"
  shows "\<exists>diffs st'.
           hosting_facet loadHostingFiles fetchHostingManifest hashFn hostingRoot groupID appID st =
             (Inr diffs, st') \<and>
           (\<not> readable (cache st) \<longrightarrow>
              hashed st' = hashed st @ map relativePath (hosting_files nodes) \<and>
              ((\<forall>f \<in> set (hosting_files nodes). \<forall>entry.
                   entries (appID, relativePath f) = Some entry \<longrightarrow>
                   lastSeen entry = signature f \<longrightarrow>
                   entry_digest entry = hashFn (content f)) \<longrightarrow>
               fst (hosting_facet loadHostingFiles fetchHostingManifest hashFn hostingRoot groupID
                      appID (st\<lparr>cache := Usable entries\<rparr>)) = Inr diffs)) \<and>
           (\<forall>stored. cache st = Unwritable stored \<longrightarrow>
              cache st' = Unwritable stored \<and>
              hashed st' = hashed st @
                map relativePath
                  (filter (\<lambda>f. \<not> entry_valid stored appID f) (hosting_files nodes)) \<and>
              fst (hosting_facet loadHostingFiles fetchHostingManifest hashFn hostingRoot groupID
                     appID (st\<lparr>cache := Usable stored\<rparr>)) = Inr diffs)"
proof (cases "readable (cache st)")
  case False
  let ?diffs = "hosting_entries
                  (map (\<lambda>g. asset_of g (hashFn (content g))) (hosting_files nodes)) manifest"
  from local_assets_unreadable [OF False, of hashFn appID "hosting_files nodes"]
  obtain store' where without:
    "local_assets hashFn appID (hosting_files nodes) st =
       (map (\<lambda>g. asset_of g (hashFn (content g))) (hosting_files nodes),
        st\<lparr>cache := store', hashed := hashed st @ map relativePath (hosting_files nodes)\<rparr>)"
    by blast
  let ?st' = "st\<lparr>cache := store', hashed := hashed st @ map relativePath (hosting_files nodes)\<rparr>"
  have facet: "hosting_facet loadHostingFiles fetchHostingManifest hashFn hostingRoot groupID
                 appID st = (Inr ?diffs, ?st')"
    using load fetch without by (simp add: hosting_facet_def hosting_diff_def)
  have same: "fst (hosting_facet loadHostingFiles fetchHostingManifest hashFn hostingRoot groupID
                     appID (st\<lparr>cache := Usable entries\<rparr>)) = Inr ?diffs"
    if coherent: "\<forall>f \<in> set (hosting_files nodes). \<forall>entry.
                    entries (appID, relativePath f) = Some entry \<longrightarrow>
                    lastSeen entry = signature f \<longrightarrow>
                    entry_digest entry = hashFn (content f)"
  proof -
    obtain diffs' st'' where
      run: "hosting_diff hashFn appID nodes manifest (st\<lparr>cache := Usable entries\<rparr>) = (diffs', st'')"
      by (cases "hosting_diff hashFn appID nodes manifest (st\<lparr>cache := Usable entries\<rparr>)")
    have "cache (st\<lparr>cache := Usable entries\<rparr>) = Usable entries"
      by simp
    from hosting_diff_usable [OF this unique run]
    have "diffs' = hosting_entries
                     (map (\<lambda>g. asset_of g (local_digest hashFn entries appID g))
                        (hosting_files nodes))
                     manifest"
      by blast
    moreover have "map (\<lambda>g. asset_of g (local_digest hashFn entries appID g)) (hosting_files nodes)
                     = map (\<lambda>g. asset_of g (hashFn (content g))) (hosting_files nodes)"
      using coherent by (intro map_cong) (auto simp: local_digest_def split: option.splits)
    ultimately have "diffs' = ?diffs"
      by simp
    with run load fetch show ?thesis
      by (simp add: hosting_facet_def)
  qed
  have "\<forall>stored. cache st \<noteq> Unwritable stored"
    using False by auto
  with facet same False show ?thesis
    by (intro exI [of _ ?diffs] exI [of _ ?st']) simp
next
  case True
  with failing obtain stored where stored: "cache st = Unwritable stored"
    by (cases "cache st") auto
  let ?diffs = "hosting_entries
                  (map (\<lambda>g. asset_of g (local_digest hashFn stored appID g)) (hosting_files nodes))
                  manifest"
  from local_assets_unwritable [OF stored, of hashFn appID "hosting_files nodes"]
  obtain st' where without:
    "local_assets hashFn appID (hosting_files nodes) st =
       (map (\<lambda>g. asset_of g (local_digest hashFn stored appID g)) (hosting_files nodes), st')"
    "cache st' = Unwritable stored"
    "hashed st' = hashed st @
       map relativePath (filter (\<lambda>g. \<not> entry_valid stored appID g) (hosting_files nodes))"
    by blast
  have facet: "hosting_facet loadHostingFiles fetchHostingManifest hashFn hostingRoot groupID
                 appID st = (Inr ?diffs, st')"
    using load fetch without(1) by (simp add: hosting_facet_def hosting_diff_def)
  obtain diffs' st'' where
    run: "hosting_diff hashFn appID nodes manifest (st\<lparr>cache := Usable stored\<rparr>) = (diffs', st'')"
    by (cases "hosting_diff hashFn appID nodes manifest (st\<lparr>cache := Usable stored\<rparr>)")
  have "cache (st\<lparr>cache := Usable stored\<rparr>) = Usable stored"
    by simp
  from hosting_diff_usable [OF this unique run] have "diffs' = ?diffs"
    by blast
  with run load fetch
  have same: "fst (hosting_facet loadHostingFiles fetchHostingManifest hashFn hostingRoot groupID
                     appID (st\<lparr>cache := Usable stored\<rparr>)) = Inr ?diffs"
    by (simp add: hosting_facet_def)
  show ?thesis
    using facet same without(2) without(3) stored True
    by (intro exI [of _ ?diffs] exI [of _ st']) simp
qed

text \<open>
  Two local files equal to the remote ones. Without a store both are hashed and nothing
  is reported, as with a usable store whose entry for \<^verbatim>\<open>/index.html\<close> is up to date.
  With that store unwritable, the entry is reused, only \<^verbatim>\<open>/img/logo.png\<close> is hashed,
  and nothing is reported either.
\<close>
theorem cache_failure_recovered_witness:
  "hosting_facet example_load example_fetch example_hash ''/work/app/hosting/files'' ''group''
     ''app-abcde'' \<lparr>cache = Unusable, hashed = []\<rparr> =
     (Inr [], \<lparr>cache = Unusable, hashed = [''/index.html'', ''/img/logo.png'']\<rparr>) \<and>
   hosting_facet example_load example_fetch example_hash ''/work/app/hosting/files'' ''group''
     ''app-abcde'' \<lparr>cache = Unwritable fresh_entries, hashed = []\<rparr> =
     (Inr [], \<lparr>cache = Unwritable fresh_entries, hashed = [''/img/logo.png'']\<rparr>) \<and>
   fst (hosting_facet example_load example_fetch example_hash ''/work/app/hosting/files''
          ''group'' ''app-abcde'' \<lparr>cache = Usable fresh_entries, hashed = []\<rparr>) = Inr []"
proof -
  have load: "example_load ''/work/app/hosting/files'' = Inr [index_v2_same_signature, logo]"
    by (simp add: example_load_def)
  have fetch: "example_fetch ''group'' ''app-abcde'' = Inr [remote_index_v2, remote_logo]"
    by (simp add: example_fetch_def)
  have unusable: "\<not> readable (cache \<lparr>cache = Unusable, hashed = []\<rparr>) \<or>
                  \<not> writable (cache \<lparr>cache = Unusable, hashed = []\<rparr>)"
    by simp
  have unwritable: "\<not> readable (cache \<lparr>cache = Unwritable fresh_entries, hashed = []\<rparr>) \<or>
                    \<not> writable (cache \<lparr>cache = Unwritable fresh_entries, hashed = []\<rparr>)"
    by simp
  have unique: "distinct (map relativePath (hosting_files [index_v2_same_signature, logo]))"
    by (simp add: hosting_files_def hosting_example_defs)
  have val: "hosting_facet example_load example_fetch example_hash ''/work/app/hosting/files''
      ''group'' ''app-abcde'' \<lparr>cache = Unusable, hashed = []\<rparr> =
     (Inr [], \<lparr>cache = Unusable, hashed = [''/index.html'', ''/img/logo.png'']\<rparr>) \<and>
   hosting_facet example_load example_fetch example_hash ''/work/app/hosting/files'' ''group''
     ''app-abcde'' \<lparr>cache = Unwritable fresh_entries, hashed = []\<rparr> =
     (Inr [], \<lparr>cache = Unwritable fresh_entries, hashed = [''/img/logo.png'']\<rparr>) \<and>
   fst (hosting_facet example_load example_fetch example_hash ''/work/app/hosting/files''
          ''group'' ''app-abcde'' \<lparr>cache = Usable fresh_entries, hashed = []\<rparr>) = Inr []"
    by (simp add: hosting_facet_def example_load_def example_fetch_def hosting_defs
          hosting_example_defs fresh_entries_def)
  from cache_failure_recovered
         [where loadHostingFiles = example_load and hostingRoot = "''/work/app/hosting/files''"
            and fetchHostingManifest = example_fetch and groupID = "''group''"
            and appID = "''app-abcde''" and hashFn = example_hash and entries = fresh_entries,
          OF load fetch unusable unique]
       cache_failure_recovered
         [where loadHostingFiles = example_load and hostingRoot = "''/work/app/hosting/files''"
            and fetchHostingManifest = example_fetch and groupID = "''group''"
            and appID = "''app-abcde''" and hashFn = example_hash and entries = fresh_entries,
          OF load fetch unwritable unique]
       val
  show ?thesis
    by simp
qed

text \<open>
  Claim C8 as stated fails twice. With an unwritable store whose entry for
  \<^verbatim>\<open>/index.html\<close> is valid, that file is not hashed again: only \<^verbatim>\<open>/img/logo.png\<close>
  is. And with a usable store whose entry for \<^verbatim>\<open>/index.html\<close> carries the file's
  signature and the digest of its former content, the diff reports a change that the diff
  without a store does not.
\<close>
theorem cache_failure_counterexample:
  "hosting_facet example_load example_fetch example_hash ''/work/app/hosting/files'' ''group''
     ''app-abcde'' \<lparr>cache = Unwritable fresh_entries, hashed = []\<rparr> =
     (Inr [], \<lparr>cache = Unwritable fresh_entries, hashed = [''/img/logo.png'']\<rparr>) \<and>
   fst (hosting_facet example_load example_fetch example_hash ''/work/app/hosting/files''
          ''group'' ''app-abcde'' \<lparr>cache = Unusable, hashed = []\<rparr>) = Inr [] \<and>
   fst (hosting_facet example_load example_fetch example_hash ''/work/app/hosting/files''
          ''group'' ''app-abcde'' \<lparr>cache = Usable stale_entries, hashed = []\<rparr>) =
     Inr [Changed ''/index.html'' Hosting ''content'']"
  by (simp add: hosting_facet_def example_load_def example_fetch_def hosting_defs
        hosting_example_defs stale_entries_def fresh_entries_def)


text \<open>
  Claim C7. The dependency diff has at most one entry: none exactly when both archives
  are absent or both are present with equal digests, \<open>Added\<close> when only the local one
  is present, \<open>Removed\<close> when only the remote one is, \<open>Changed\<close> when both are
  present with different digests.
\<close>
theorem dependency_diff_cases:
  "length (dependency_diff localDep remoteDep) \<le> 1 \<and>
   (dependency_diff localDep remoteDep = [] \<longleftrightarrow>
      (\<not> present localDep \<and> \<not> present remoteDep) \<or>
      (present localDep \<and> present remoteDep \<and> digest localDep = digest remoteDep)) \<and>
   (present localDep \<and> \<not> present remoteDep \<longrightarrow>
      dependency_diff localDep remoteDep = [Added ''dependency-archive'' Dependency '''']) \<and>
   (\<not> present localDep \<and> present remoteDep \<longrightarrow>
      dependency_diff localDep remoteDep = [Removed ''dependency-archive'' Dependency '''']) \<and>
   (present localDep \<and> present remoteDep \<and> digest localDep \<noteq> digest remoteDep \<longrightarrow>
      dependency_diff localDep remoteDep = [Changed ''dependency-archive'' Dependency ''''])"
  by (simp add: dependency_diff_def)

text \<open>The five cases, each at a concrete pair of snapshots.\<close>
theorem dependency_diff_cases_witness:
  "dependency_diff \<lparr>present = True, digest = Some ''D2''\<rparr> \<lparr>present = True, digest = Some ''D3''\<rparr>
     = [Changed ''dependency-archive'' Dependency ''''] \<and>
   dependency_diff \<lparr>present = True, digest = Some ''D2''\<rparr> \<lparr>present = False, digest = None\<rparr>
     = [Added ''dependency-archive'' Dependency ''''] \<and>
   dependency_diff \<lparr>present = False, digest = None\<rparr> \<lparr>present = True, digest = Some ''D3''\<rparr>
     = [Removed ''dependency-archive'' Dependency ''''] \<and>
   dependency_diff \<lparr>present = True, digest = Some ''D2''\<rparr> \<lparr>present = True, digest = Some ''D2''\<rparr>
     = [] \<and>
   dependency_diff \<lparr>present = False, digest = None\<rparr> \<lparr>present = False, digest = None\<rparr> = []"
  using dependency_diff_cases [of "\<lparr>present = True, digest = Some ''D2''\<rparr>"
          "\<lparr>present = True, digest = Some ''D3''\<rparr>"]
        dependency_diff_cases [of "\<lparr>present = True, digest = Some ''D2''\<rparr>"
          "\<lparr>present = False, digest = None\<rparr>"]
        dependency_diff_cases [of "\<lparr>present = False, digest = None\<rparr>"
          "\<lparr>present = True, digest = Some ''D3''\<rparr>"]
        dependency_diff_cases [of "\<lparr>present = True, digest = Some ''D2''\<rparr>"
          "\<lparr>present = True, digest = Some ''D2''\<rparr>"]
        dependency_diff_cases [of "\<lparr>present = False, digest = None\<rparr>"
          "\<lparr>present = False, digest = None\<rparr>"]
  by simp


text \<open>The first scenario of section 8.\<close>
lemma scenario_removed:
  "config_diff [\<lparr>relativePath = ''a.json'', content = ''{}'', isDirectory = False\<rparr>]
     [\<lparr>relativePath = ''a.json'', content = ''{}'', isDirectory = False\<rparr>,
      \<lparr>relativePath = ''b.json'', content = ''{}'', isDirectory = False\<rparr>]
   = [Removed ''b.json'' Config '''']"
  by (simp add: config_diff_def tree_paths_def tree_files_def normalize_path_def config_entry_def
        tree_lookup_def)

end
